theory Spec2Isabelle
  imports Complex_Main
begin

section \<open>Geometry: raylib vectors and the waypoint record\<close>

text \<open>
  The C++ \<open>float\<close> is read as a real number throughout: rounding, infinities and NaN are
  outside this development. \<open>Vector2\<close> and the \<open>raymath\<close> operations used by the sources
  are written out as the library defines them.
\<close>

datatype Vector2 = Vector2 (vec_x: real) (vec_y: real)

definition Vector2Add :: "Vector2 \<Rightarrow> Vector2 \<Rightarrow> Vector2" where
  "Vector2Add a b = Vector2 (vec_x a + vec_x b) (vec_y a + vec_y b)"

definition Vector2Subtract :: "Vector2 \<Rightarrow> Vector2 \<Rightarrow> Vector2" where
  "Vector2Subtract a b = Vector2 (vec_x a - vec_x b) (vec_y a - vec_y b)"

definition Vector2Scale :: "Vector2 \<Rightarrow> real \<Rightarrow> Vector2" where
  "Vector2Scale v s = Vector2 (vec_x v * s) (vec_y v * s)"

definition Vector2Length :: "Vector2 \<Rightarrow> real" where
  "Vector2Length v = sqrt (vec_x v * vec_x v + vec_y v * vec_y v)"

definition Vector2Distance :: "Vector2 \<Rightarrow> Vector2 \<Rightarrow> real" where
  "Vector2Distance a b =
     sqrt ((vec_x a - vec_x b) * (vec_x a - vec_x b) + (vec_y a - vec_y b) * (vec_y a - vec_y b))"

definition Vector2Normalize :: "Vector2 \<Rightarrow> Vector2" where
  "Vector2Normalize v =
     (let len = Vector2Length v
      in if len > 0 then Vector2 (vec_x v * (1 / len)) (vec_y v * (1 / len)) else Vector2 0 0)"

text \<open>\<open>struct Waypoint\<close> of \<open>Waypoint.hpp\<close>; the field \<open>id\<close> is named \<open>wpId\<close> here.\<close>

record Waypoint =
  position :: Vector2
  tolerance :: real
  wpId :: int
  entryAngle :: real
  stopAtEnd :: bool
  speedLimitFactor :: real

text \<open>The constructor with its default arguments
  \<open>(pos, tol = 1.0, id = -1, angle = 0.0, stop = false, speedFactor = 1.0)\<close>.\<close>

definition mkWaypoint :: "Vector2 \<Rightarrow> real \<Rightarrow> int \<Rightarrow> real \<Rightarrow> bool \<Rightarrow> Waypoint" where
  "mkWaypoint pos tol i angle stop =
     \<lparr>position = pos, tolerance = tol, wpId = i, entryAngle = angle, stopAtEnd = stop,
      speedLimitFactor = 1\<rparr>"

definition WaypointAt :: "Vector2 \<Rightarrow> real \<Rightarrow> Waypoint" where
  "WaypointAt pos tol = mkWaypoint pos tol (- 1) 0 False"

section \<open>Modules, spots and the module store\<close>

datatype Lane = UP | DOWN

datatype SpotState = FREE | RESERVED | OCCUPIED

text \<open>
  \<open>struct Spot\<close>. The header under the sources declares \<open>localPosition\<close>, \<open>orientation\<close> and
  \<open>id\<close> (here \<open>spotId\<close>); the orchestrator reads \<open>s.state\<close> and \<open>s.price\<close>, so these two
  fields are added as the specification's data model lists them.
\<close>

record Spot =
  localPosition :: Vector2
  orientation :: real
  spotId :: int
  state :: SpotState
  price :: real

text \<open>The closed set of module classes; each facility class carries its \<open>isTop\<close> flag.\<close>

datatype ModuleKind =
    NormalRoad
  | UpEntranceRoad
  | DownEntranceRoad
  | DoubleEntranceRoad
  | SmallParking bool
  | LargeParking bool
  | SmallChargingStation bool
  | LargeChargingStation bool

text \<open>
  \<open>class Module\<close>. A \<open>Module*\<close> is an index into the entity manager's module list
  (\<open>None\<close> is the null pointer), so that two vehicles parked in one facility share it.
\<close>

record Module =
  width :: real
  height :: real
  worldPosition :: Vector2
  localWaypoints :: "Waypoint list"
  spots :: "Spot list"
  parent :: "nat option"
  kind :: ModuleKind

definition deref :: "Module list \<Rightarrow> nat option \<Rightarrow> Module option" where
  "deref mods p =
     (case p of None \<Rightarrow> None | Some i \<Rightarrow> if i < length mods then Some (mods ! i) else None)"

definition getParent :: "Module list \<Rightarrow> Module \<Rightarrow> Module option" where
  "getParent mods m = deref mods (parent m)"

text \<open>The virtual \<open>isUp\<close>: \<open>false\<close> in the base class, \<open>isTop\<close> in each facility class.\<close>

fun isUpKind :: "ModuleKind \<Rightarrow> bool" where
  "isUpKind (SmallParking isTop) = isTop"
| "isUpKind (LargeParking isTop) = isTop"
| "isUpKind (SmallChargingStation isTop) = isTop"
| "isUpKind (LargeChargingStation isTop) = isTop"
| "isUpKind _ = False"

definition isUp :: "Module \<Rightarrow> bool" where
  "isUp m = isUpKind (kind m)"

fun isParkingKind :: "ModuleKind \<Rightarrow> bool" where
  "isParkingKind (SmallParking _) = True"
| "isParkingKind (LargeParking _) = True"
| "isParkingKind _ = False"

fun isChargingKind :: "ModuleKind \<Rightarrow> bool" where
  "isChargingKind (SmallChargingStation _) = True"
| "isChargingKind (LargeChargingStation _) = True"
| "isChargingKind _ = False"

text \<open>
  The named constants of \<open>config.hpp\<close>, which is not among the sources: they are a parameter
  of every function that reads one.
\<close>

record Config =
  ART_PIXELS_PER_METER :: real
  LANE_OFFSET_UP :: real
  LANE_OFFSET_DOWN :: real
  BATTERY_LOW_THRESHOLD :: real
  BATTERY_HIGH_THRESHOLD :: real
  BATTERY_EXIT_THRESHOLD :: real
  BATTERY_FORCE_EXIT_THRESHOLD :: real
  CHARGING_RATE :: real

section \<open>The vehicle as the orchestrator and the planner see it\<close>

datatype CarType = COMBUSTION | ELECTRIC

datatype Priority = PRIORITY_PRICE | PRIORITY_DISTANCE

datatype CarState = DRIVING | ALIGNING | PARKED | EXITING

text \<open>
  Modelled from the spec: the declaration of \<open>class Car\<close> that \<open>TrafficSystem.cpp\<close> and
  \<open>PathPlanner.cpp\<close> are compiled against (its header and the bodies of \<open>getType\<close>,
  \<open>getBatteryLevel\<close>, \<open>getPriority\<close>, \<open>getPosition\<close>, \<open>getVelocity\<close>, \<open>getState\<close>,
  \<open>setState\<close>, \<open>setPath\<close>, \<open>setParkingContext\<close>, \<open>getParkedFacility\<close>, \<open>getParkedSpot\<close>,
  \<open>getParkedSpotIndex\<close>, \<open>getEnteredFromLeft\<close>, \<open>charge\<close>, \<open>isReadyToLeave\<close>, \<open>hasArrived\<close>)
  is missing from the sources. The record holds one field per accessor, after the data
  model of the specification: type, battery level, priority, position, velocity,
  \<open>enteredFromLeft\<close>, state, the waypoint queue and the parking context (facility reference,
  spot snapshot, spot index). What the dwell timer reports (\<open>isReadyToLeave\<close>) and what the
  queue reports (\<open>hasArrived\<close>) are read as two flags the vehicle maintains itself.
\<close>

record Vehicle =
  vehType :: CarType
  batteryLevel :: real
  priority :: Priority
  vehPosition :: Vector2
  vehVelocity :: Vector2
  enteredFromLeft :: bool
  vehState :: CarState
  path :: "Waypoint list"
  parkedFacility :: "nat option"
  parkedSpot :: Spot
  parkedSpotIndex :: int
  readyToLeave :: bool
  arrived :: bool

section \<open>The path planner (\<open>PathPlanner.cpp\<close>)\<close>

definition P2M :: "Config \<Rightarrow> real \<Rightarrow> real" where
  "P2M cfg artPixels = artPixels / ART_PIXELS_PER_METER cfg"

definition CalculateRoadEntry :: "Config \<Rightarrow> Module \<Rightarrow> Lane \<Rightarrow> bool \<Rightarrow> Waypoint" where
  "CalculateRoadEntry cfg road lane useRightSide =
     (let roadPos = worldPosition road;
          xCenter = P2M cfg 142;
          yOffset = (if lane = DOWN then P2M cfg (LANE_OFFSET_DOWN cfg)
                     else P2M cfg (LANE_OFFSET_UP cfg));
          xOffset = (if useRightSide then P2M cfg 18 else - P2M cfg 18)
      in WaypointAt (Vector2Add roadPos (Vector2 (xCenter + xOffset) yOffset)) 2.5)"

definition CalculateFacilityEntry :: "Config \<Rightarrow> Module \<Rightarrow> bool \<Rightarrow> Waypoint" where
  "CalculateFacilityEntry cfg facility useRightSide =
     (let basePos = (case localWaypoints facility of
                       [] \<Rightarrow> Vector2 (width facility / 2) (height facility / 2)
                     | wp # _ \<Rightarrow> position wp);
          offset = (if useRightSide then P2M cfg 18 else - P2M cfg 18);
          offsetVec = Vector2 offset 0
      in WaypointAt (Vector2Add (worldPosition facility) (Vector2Add basePos offsetVec)) 1.5)"

definition CalculateAlignmentPoint :: "Module \<Rightarrow> Spot \<Rightarrow> Waypoint" where
  "CalculateAlignmentPoint facility spot =
     (let spotGlobal = Vector2Add (worldPosition facility) (localPosition spot);
          backAngle = orientation spot + pi;
          dist = 8;
          offset = Vector2 (cos backAngle * dist) (sin backAngle * dist);
          alignPos = Vector2Add spotGlobal offset
      in WaypointAt alignPos 1)"

definition CalculateSpotPoint :: "Module \<Rightarrow> Spot \<Rightarrow> Waypoint" where
  "CalculateSpotPoint facility spot =
     (let spotGlobal = Vector2Add (worldPosition facility) (localPosition spot)
      in mkWaypoint spotGlobal 0.2 (spotId spot) (orientation spot) True)"

text \<open>The two locals at the head of \<open>GeneratePath\<close>: the lane and the side.\<close>

definition chosenLane :: "Vehicle \<Rightarrow> Lane" where
  "chosenLane car = (if vec_x (vehVelocity car) > 0 then DOWN else UP)"

definition useRightSide :: "Module \<Rightarrow> bool" where
  "useRightSide targetFac = isUp targetFac"

definition GeneratePath :: "Config \<Rightarrow> Module list \<Rightarrow> Vehicle \<Rightarrow> Module \<Rightarrow> Spot \<Rightarrow> Waypoint list" where
  "GeneratePath cfg mods car targetFac targetSpot =
     (let lane = chosenLane car;
          side = useRightSide targetFac;
          first = (case getParent mods targetFac of
                     Some parentRoad \<Rightarrow> CalculateRoadEntry cfg parentRoad lane side
                   | None \<Rightarrow> CalculateFacilityEntry cfg targetFac side)
      in [first,
          CalculateFacilityEntry cfg targetFac side,
          CalculateAlignmentPoint targetFac targetSpot,
          CalculateSpotPoint targetFac targetSpot])"

section \<open>The random source\<close>

text \<open>
  raylib's \<open>GetRandomValue(min, max)\<close> is \<open>rand() % (abs(max - min) + 1) + min\<close>, after
  swapping the bounds when \<open>min > max\<close>. The source of \<open>rand()\<close> is the list of raw draws
  still to come; a list that has run out reads as the draw \<open>0\<close>.
\<close>

fun GetRandomValue :: "int \<Rightarrow> int \<Rightarrow> nat list \<Rightarrow> int \<times> nat list" where
  "GetRandomValue lo hi [] = (min lo hi, [])"
| "GetRandomValue lo hi (r # rs) = (int r mod (\<bar>hi - lo\<bar> + 1) + min lo hi, rs)"

section \<open>Facility spot reservation (\<open>Module\<close> methods)\<close>

record SpotCounts =
  free :: nat
  reserved :: nat
  occupied :: nat

definition freeSpotIndices :: "Module \<Rightarrow> nat list" where
  "freeSpotIndices m = filter (\<lambda>i. state (spots m ! i) = FREE) [0..<length (spots m)]"

text \<open>
  Modelled from the spec: the body of \<open>Module::getRandomSpotIndex\<close> is missing from the
  sources (only its declaration is there). It "returns the index of a uniformly-chosen FREE
  spot in that facility, or a sentinel none value if no spot is FREE": the sentinel is the
  \<open>-1\<close> the orchestrator tests for, and the choice is one draw over the positions of the
  list of FREE indices.
\<close>

definition getRandomSpotIndex :: "Module \<Rightarrow> nat list \<Rightarrow> int \<times> nat list" where
  "getRandomSpotIndex m rng =
     (let freeIdx = freeSpotIndices m
      in if freeIdx = [] then (- 1, rng)
         else (case GetRandomValue 0 (int (length freeIdx) - 1) rng of
                 (r, rng') \<Rightarrow> (int (freeIdx ! nat r), rng')))"

text \<open>
  Modelled from the spec: the body of \<open>Module::getSpot\<close> is missing from the sources. It gives
  "the Spot data by index"; an index that names no spot gives \<open>None\<close>.
\<close>

definition getSpot :: "Module \<Rightarrow> int \<Rightarrow> Spot option" where
  "getSpot m idx =
     (if 0 \<le> idx \<and> nat idx < length (spots m) then Some (spots m ! nat idx) else None)"

text \<open>
  Modelled from the spec: the body of \<open>Module::setSpotState\<close> is missing from the sources. It
  "performs the transition unconditionally"; an index that names no spot changes nothing.
\<close>

definition setSpotState :: "Module \<Rightarrow> int \<Rightarrow> SpotState \<Rightarrow> Module" where
  "setSpotState m idx newState =
     (if 0 \<le> idx \<and> nat idx < length (spots m)
      then m\<lparr>spots := (spots m)[nat idx := (spots m ! nat idx)\<lparr>state := newState\<rparr>]\<rparr>
      else m)"

text \<open>
  Modelled from the spec: the body of \<open>Module::getSpotCounts\<close> is missing from the sources. It
  "returns \<open>{free, reserved, occupied}\<close> totals".
\<close>

definition getSpotCounts :: "Module \<Rightarrow> SpotCounts" where
  "getSpotCounts m =
     \<lparr>free = length (filter (\<lambda>s. state s = FREE) (spots m)),
      reserved = length (filter (\<lambda>s. state s = RESERVED) (spots m)),
      occupied = length (filter (\<lambda>s. state s = OCCUPIED) (spots m))\<rparr>"

text \<open>A method call through a \<open>Module*\<close> that mutates the module in the store.\<close>

definition setSpotStateAt :: "Module list \<Rightarrow> nat \<Rightarrow> int \<Rightarrow> SpotState \<Rightarrow> Module list" where
  "setSpotStateAt mods fac idx newState = mods[fac := setSpotState (mods ! fac) idx newState]"

section \<open>The orchestrator: the vehicle-spawned handler (\<open>TrafficSystem.cpp\<close>)\<close>

definition FLT_MAX :: real where
  "FLT_MAX = 340282346638528859811704183484516925440"

definition FLT_LOWEST :: real where
  "FLT_LOWEST = - FLT_MAX"

definition decideSeekCharging :: "Config \<Rightarrow> Vehicle \<Rightarrow> nat list \<Rightarrow> bool \<times> nat list" where
  "decideSeekCharging cfg car rng =
     (let battery = batteryLevel car
      in if vehType car = ELECTRIC then
           (if battery < BATTERY_LOW_THRESHOLD cfg then (True, rng)
            else if battery > BATTERY_HIGH_THRESHOLD cfg then (False, rng)
            else (let t = (battery - BATTERY_LOW_THRESHOLD cfg)
                          / (BATTERY_HIGH_THRESHOLD cfg - BATTERY_LOW_THRESHOLD cfg)
                  in case GetRandomValue 0 100 rng of
                       (r, rng') \<Rightarrow> (if real_of_int r / 100 < t then (False, rng') else (True, rng'))))
         else (False, rng))"

definition modulesOfClass :: "Module list \<Rightarrow> (ModuleKind \<Rightarrow> bool) \<Rightarrow> nat list" where
  "modulesOfClass mods isClass = filter (\<lambda>i. isClass (kind (mods ! i))) [0..<length mods]"

text \<open>The filter of the module list, with the one fallback from charging to parking.\<close>

definition eligibleFacilities :: "Module list \<Rightarrow> CarType \<Rightarrow> bool \<Rightarrow> nat list" where
  "eligibleFacilities mods type seekCharging =
     (let facilities =
            (if type = COMBUSTION then modulesOfClass mods isParkingKind
             else if seekCharging then modulesOfClass mods isChargingKind
             else modulesOfClass mods isParkingKind)
      in if facilities = [] then
           (if seekCharging then modulesOfClass mods isParkingKind else facilities)
         else facilities)"

text \<open>
  The state of a selection loop: \<open>targetFac\<close>, \<open>bestSpotIndex\<close>, \<open>bestMetric\<close> and the random
  source.
\<close>

type_synonym Selection = "nat option \<times> int \<times> real \<times> nat list"

fun distanceStep :: "Module list \<Rightarrow> Vector2 \<Rightarrow> Selection \<Rightarrow> nat \<Rightarrow> Selection" where
  "distanceStep mods carPos (targetFac, bestSpotIndex, bestMetric, rng) fac =
     (if free (getSpotCounts (mods ! fac)) = 0 then (targetFac, bestSpotIndex, bestMetric, rng)
      else (let dist = Vector2Distance carPos (worldPosition (mods ! fac))
            in if dist < bestMetric then
                 (case getRandomSpotIndex (mods ! fac) rng of
                    (idx, rng') \<Rightarrow>
                      if idx \<noteq> - 1 then (Some fac, idx, dist, rng')
                      else (targetFac, bestSpotIndex, bestMetric, rng'))
               else (targetFac, bestSpotIndex, bestMetric, rng)))"

fun priceStep :: "Module list \<Rightarrow> Selection \<Rightarrow> nat \<Rightarrow> Selection" where
  "priceStep mods (targetFac, bestSpotIndex, bestMetric, rng) fac =
     (case getRandomSpotIndex (mods ! fac) rng of
        (idx, rng') \<Rightarrow>
          if idx = - 1 then (targetFac, bestSpotIndex, bestMetric, rng')
          else (case getSpot (mods ! fac) idx of
                  None \<Rightarrow> (targetFac, bestSpotIndex, bestMetric, rng')
                | Some s \<Rightarrow>
                    if price s < bestMetric then (Some fac, idx, price s, rng')
                    else (targetFac, bestSpotIndex, bestMetric, rng')))"

definition selectByPriority :: "Module list \<Rightarrow> Vehicle \<Rightarrow> nat list \<Rightarrow> nat list \<Rightarrow> Selection" where
  "selectByPriority mods car facilities rng =
     (if priority car = PRIORITY_DISTANCE
      then foldl (distanceStep mods (vehPosition car)) (None, - 1, FLT_MAX, rng) facilities
      else foldl (priceStep mods) (None, - 1, FLT_MAX, rng) facilities)"

text \<open>
  The random fallback and the last retry, which end the selection with \<open>targetFac\<close>,
  \<open>spotIndex\<close> and the random source.
\<close>

definition determineSpot :: "Module list \<Rightarrow> Vehicle \<Rightarrow> nat list \<Rightarrow> nat list \<Rightarrow> nat option \<times> int \<times> nat list" where
  "determineSpot mods car facilities rng =
     (case selectByPriority mods car facilities rng of
        (targetFac, bestSpotIndex, bestMetric, rng1) \<Rightarrow>
          (case (if targetFac = None \<or> bestSpotIndex = - 1 then
                   (if facilities \<noteq> [] then
                      (case GetRandomValue 0 (int (length facilities) - 1) rng1 of
                         (k, rng2) \<Rightarrow>
                           (case getRandomSpotIndex (mods ! (facilities ! nat k)) rng2 of
                              (idx, rng3) \<Rightarrow> (Some (facilities ! nat k), idx, rng3)))
                    else (targetFac, bestSpotIndex, rng1))
                 else (targetFac, bestSpotIndex, rng1)) of
             (targetFac', bestSpotIndex', rng4) \<Rightarrow>
               (case targetFac' of
                  Some fac \<Rightarrow>
                    if bestSpotIndex' = - 1 then
                      (case getRandomSpotIndex (mods ! fac) rng4 of
                         (idx, rng5) \<Rightarrow> (targetFac', idx, rng5))
                    else (targetFac', bestSpotIndex', rng4)
                | None \<Rightarrow> (targetFac', bestSpotIndex', rng4))))"

text \<open>The map's road bounds, from the \<open>NormalRoad\<close> modules, with the defaults of the source.\<close>

fun boundsStep :: "real \<times> real \<Rightarrow> Module \<Rightarrow> real \<times> real" where
  "boundsStep (minRoadX, maxRoadX) m =
     (if kind m = NormalRoad then
        (let x = vec_x (worldPosition m); w = width m
         in (if x < minRoadX then x else minRoadX, if x + w > maxRoadX then x + w else maxRoadX))
      else (minRoadX, maxRoadX))"

definition roadBounds :: "Module list \<Rightarrow> real \<times> real" where
  "roadBounds mods =
     (case foldl boundsStep (FLT_MAX, FLT_LOWEST) mods of
        (minRoadX, maxRoadX) \<Rightarrow>
          (if minRoadX = FLT_MAX then 0 else minRoadX,
           if maxRoadX = FLT_LOWEST then 100 else maxRoadX))"

text \<open>
  What the handler did: it returned early (no facility of the class in the map), it sent
  the vehicle through the map, or it reserved a spot; the last two publish an
  \<open>AssignPathEvent\<close> with the path given. \<open>NoSpotData\<close> stands for a reserved index that
  names no spot of the facility, where the model has no spot to plan a path to; the
  selection never ends there (\<open>onCarSpawned_has_spot\<close> below).
\<close>

datatype SpawnOutcome =
    NoFacilities
  | ThroughTraffic "Waypoint list"
  | PathAssigned "Waypoint list"
  | NoSpotData

definition throughTraffic :: "Module list \<Rightarrow> Vehicle \<Rightarrow> Vehicle \<times> Waypoint list" where
  "throughTraffic mods car =
     (case roadBounds mods of
        (minRoadX, maxRoadX) \<Rightarrow>
          (let movingRight = (vec_x (vehVelocity car) > 0);
               finalX = (if movingRight then maxRoadX + 2 else minRoadX - 2);
               yPos = vec_y (vehPosition car);
               exitPath = [mkWaypoint (Vector2 finalX yPos) 1 (- 1) 0 True]
           in (car\<lparr>path := exitPath, vehState := EXITING\<rparr>, exitPath)))"

definition onCarSpawned ::
  "Config \<Rightarrow> Module list \<Rightarrow> Vehicle \<Rightarrow> nat list \<Rightarrow> Module list \<times> Vehicle \<times> SpawnOutcome \<times> nat list" where
  "onCarSpawned cfg mods car rng =
     (case decideSeekCharging cfg car rng of
        (seekCharging, rng1) \<Rightarrow>
          (let facilities = eligibleFacilities mods (vehType car) seekCharging
           in if facilities = [] then (mods, car, NoFacilities, rng1)
              else (case determineSpot mods car facilities rng1 of
                      (targetFac, spotIndex, rng2) \<Rightarrow>
                        (case (if spotIndex = - 1 then None else targetFac) of
                           None \<Rightarrow>
                             (case throughTraffic mods car of
                                (car', exitPath) \<Rightarrow> (mods, car', ThroughTraffic exitPath, rng2))
                         | Some fac \<Rightarrow>
                             (let mods' = setSpotStateAt mods fac spotIndex RESERVED
                              in case getSpot (mods' ! fac) spotIndex of
                                   None \<Rightarrow> (mods', car, NoSpotData, rng2)
                                 | Some spot \<Rightarrow>
                                     (let path = GeneratePath cfg mods' car (mods' ! fac) spot;
                                          car' = car\<lparr>parkedFacility := Some fac, parkedSpot := spot,
                                                     parkedSpotIndex := spotIndex\<rparr>
                                      in (mods', car', PathAssigned path, rng2)))))))"

text \<open>
  For the statement of the price policy: the FREE spot the price loop samples in each
  facility that is not full, with its price, in the order and with the draws of the loop.
\<close>

fun priceSamples :: "Module list \<Rightarrow> nat list \<Rightarrow> nat list \<Rightarrow> (nat \<times> int \<times> real) list" where
  "priceSamples mods [] rng = []"
| "priceSamples mods (fac # facs) rng =
     (case getRandomSpotIndex (mods ! fac) rng of
        (idx, rng') \<Rightarrow>
          (if idx = - 1 then priceSamples mods facs rng'
           else (case getSpot (mods ! fac) idx of
                   None \<Rightarrow> priceSamples mods facs rng'
                 | Some s \<Rightarrow> (fac, idx, price s) # priceSamples mods facs rng')))"

text \<open>An index that names a FREE spot of a facility.\<close>

definition isFreeSpot :: "Module \<Rightarrow> int \<Rightarrow> bool" where
  "isFreeSpot m idx \<longleftrightarrow>
     0 \<le> idx \<and> nat idx < length (spots m) \<and> state (spots m ! nat idx) = FREE"

section \<open>The orchestrator: the tick handler (\<open>TrafficSystem.cpp\<close>)\<close>

text \<open>A pointer that names a module of the store; anything else is read as null.\<close>

definition validPtr :: "Module list \<Rightarrow> nat option \<Rightarrow> nat option" where
  "validPtr mods p =
     (case p of None \<Rightarrow> None | Some i \<Rightarrow> if i < length mods then Some i else None)"

text \<open>
  The transition RESERVED to OCCUPIED, at the head of the loop body: the vehicle is ALIGNING
  or PARKED, its facility pointer is not null, its spot index is not \<open>-1\<close> and the spot is
  still RESERVED.
\<close>

definition promoteSpot :: "Module list \<Rightarrow> Vehicle \<Rightarrow> Module list" where
  "promoteSpot mods car =
     (if vehState car = ALIGNING \<or> vehState car = PARKED then
        (case validPtr mods (parkedFacility car) of
           None \<Rightarrow> mods
         | Some fac \<Rightarrow>
             (let idx = parkedSpotIndex car
              in if idx \<noteq> - 1 then
                   (case getSpot (mods ! fac) idx of
                      None \<Rightarrow> mods
                    | Some s \<Rightarrow>
                        if state s = RESERVED then setSpotStateAt mods fac idx OCCUPIED else mods)
                 else mods))
      else mods)"

text \<open>
  Modelled from the spec: the body of \<open>Car::charge\<close> is missing from the sources. A vehicle at
  a charging spot "accrues battery at a fixed rate": the amount is added to the level.
\<close>

definition charge :: "Vehicle \<Rightarrow> real \<Rightarrow> Vehicle" where
  "charge car amount = car\<lparr>batteryLevel := batteryLevel car + amount\<rparr>"

text \<open>The local \<open>probability\<close> of the charging branch.\<close>

definition exitProbability :: "Config \<Rightarrow> real \<Rightarrow> real \<Rightarrow> real" where
  "exitProbability cfg dt bat =
     (let range = BATTERY_FORCE_EXIT_THRESHOLD cfg - BATTERY_EXIT_THRESHOLD cfg;
          excess = bat - BATTERY_EXIT_THRESHOLD cfg
      in 0.5 * (excess / range) * dt)"

definition isChargingSpot :: "Module list \<Rightarrow> Vehicle \<Rightarrow> bool" where
  "isChargingSpot mods car =
     (case deref mods (parkedFacility car) of
        None \<Rightarrow> False
      | Some fac \<Rightarrow> isChargingKind (kind fac))"

text \<open>
  The parked logic: it gives \<open>shouldExit\<close>, the vehicle (charged, at a charging spot) and the
  random source.
\<close>

definition parkedLogic ::
  "Config \<Rightarrow> real \<Rightarrow> Module list \<Rightarrow> Vehicle \<Rightarrow> nat list \<Rightarrow> bool \<times> Vehicle \<times> nat list" where
  "parkedLogic cfg dt mods car rng =
     (if vehState car = PARKED then
        (if isChargingSpot mods car \<and> vehType car = ELECTRIC then
           (let car1 = charge car (CHARGING_RATE cfg * dt);
                bat = batteryLevel car1
            in if bat > BATTERY_FORCE_EXIT_THRESHOLD cfg then (True, car1, rng)
               else if bat > BATTERY_EXIT_THRESHOLD cfg then
                 (case GetRandomValue 0 10000 rng of
                    (r, rng') \<Rightarrow> (real_of_int r / 10000 < exitProbability cfg dt bat, car1, rng'))
               else (False, car1, rng))
         else (if readyToLeave car then (True, car, rng) else (False, car, rng)))
      else (False, car, rng))"

text \<open>
  \<open>PathPlanner::GenerateExitPath(car, facility, spot, exitRight, finalX)\<close> is called by the
  handler, and its body is not among the sources: the handler takes it as a parameter.
\<close>

type_synonym ExitPlanner = "Vehicle \<Rightarrow> Module \<Rightarrow> Spot \<Rightarrow> bool \<Rightarrow> real \<Rightarrow> Waypoint list"

definition chooseExitRight :: "Vehicle \<Rightarrow> nat list \<Rightarrow> bool \<times> nat list" where
  "chooseExitRight car rng =
     (if priority car = PRIORITY_DISTANCE then (\<not> enteredFromLeft car, rng)
      else (case GetRandomValue 0 1 rng of (r, rng') \<Rightarrow> (r = 1, rng')))"

text \<open>
  The body of \<open>if (shouldExit)\<close>. The flag returned last says that the loop went on to the
  next vehicle with \<open>continue\<close> (the vehicle has no facility). The exit planner reads the
  facility through its pointer, after the spot was freed.
\<close>

definition leaveSpot ::
  "ExitPlanner \<Rightarrow> real \<times> real \<Rightarrow> Module list \<Rightarrow> Vehicle \<Rightarrow> nat list
     \<Rightarrow> Module list \<times> Vehicle \<times> nat list \<times> bool" where
  "leaveSpot genExit bounds mods car rng =
     (case validPtr mods (parkedFacility car) of
        None \<Rightarrow> (mods, car\<lparr>vehState := DRIVING\<rparr>, rng, True)
      | Some currentFac \<Rightarrow>
          (let currentSpot = parkedSpot car;
               idx = parkedSpotIndex car;
               mods' = (if idx \<noteq> - 1 then setSpotStateAt mods currentFac idx FREE else mods)
           in case chooseExitRight car rng of
                (exitRight, rng') \<Rightarrow>
                  (let finalX = (if exitRight then snd bounds + 2 else fst bounds - 2);
                       exitPath = genExit car (mods' ! currentFac) currentSpot exitRight finalX
                   in (mods', car\<lparr>path := exitPath, vehState := EXITING\<rparr>, rng', False))))"

text \<open>
  One pass of the loop body for one vehicle: the store, the vehicle, whether it goes on the
  removal list, and the random source.
\<close>

definition tickCar ::
  "Config \<Rightarrow> ExitPlanner \<Rightarrow> real \<Rightarrow> real \<times> real \<Rightarrow> Module list \<Rightarrow> Vehicle \<Rightarrow> nat list
     \<Rightarrow> Module list \<times> Vehicle \<times> bool \<times> nat list" where
  "tickCar cfg genExit dt bounds mods car rng =
     (let mods1 = promoteSpot mods car
      in case parkedLogic cfg dt mods1 car rng of
           (shouldExit, car1, rng1) \<Rightarrow>
             (case (if shouldExit then leaveSpot genExit bounds mods1 car1 rng1
                    else (mods1, car1, rng1, False)) of
                (mods2, car2, rng2, continued) \<Rightarrow>
                  (mods2, car2, \<not> continued \<and> vehState car2 = EXITING \<and> arrived car2, rng2)))"



section \<open>Runs of the orchestrator and the stores they pass through\<close>










section \<open>The vehicle's own update (\<open>Car.cpp\<close>)\<close>

text \<open>
  \<open>Car.cpp\<close> as it stands among the sources: the waypoint queue holds bare positions
  (\<open>addWaypoint(Vector2)\<close>, \<open>Vector2 target = waypoints.front()\<close>), and the world is the
  \<open>World\<close> of pixel dimensions or a null pointer. This class has none of the accessors the
  orchestrator calls, so it is a record of its own.
\<close>

record WorldDims =
  worldWidth :: int
  worldHeight :: int

record Car =
  carPosition :: Vector2
  velocity :: Vector2
  acceleration :: Vector2
  world :: "WorldDims option"
  maxSpeed :: real
  maxForce :: real
  waypoints :: "Vector2 list"

definition applyForce :: "Car \<Rightarrow> Vector2 \<Rightarrow> Car" where
  "applyForce car force = car\<lparr>acceleration := Vector2Add (acceleration car) force\<rparr>"

definition addWaypoint :: "Car \<Rightarrow> Vector2 \<Rightarrow> Car" where
  "addWaypoint car point = car\<lparr>waypoints := waypoints car @ [point]\<rparr>"

definition seek :: "Car \<Rightarrow> Vector2 \<Rightarrow> Car" where
  "seek car target =
     (let desired = Vector2Scale (Vector2Normalize (Vector2Subtract target (carPosition car)))
                      (maxSpeed car);
          steer = Vector2Subtract desired (velocity car);
          steer' = (if Vector2Length steer > maxForce car
                    then Vector2Scale (Vector2Normalize steer) (maxForce car) else steer)
      in applyForce car steer')"

text \<open>The filler waypoint of a vehicle whose queue is empty and whose world is set.\<close>

definition ensureWaypoint :: "Car \<Rightarrow> nat list \<Rightarrow> Car \<times> nat list" where
  "ensureWaypoint car rng =
     (if waypoints car = [] then
        (case world car of
           None \<Rightarrow> (car, rng)
         | Some w \<Rightarrow>
             (case GetRandomValue 300 500 rng of
                (d, rng1) \<Rightarrow>
                  (case GetRandomValue 0 360 rng1 of
                     (a, rng2) \<Rightarrow>
                       (let dist = real_of_int d;
                            angle = real_of_int a * (pi / 180);
                            offset = Vector2 (cos angle * dist) (sin angle * dist);
                            p0 = Vector2Add (carPosition car) offset;
                            x1 = (if vec_x p0 < 50 then 50 else vec_x p0);
                            y1 = (if vec_y p0 < 50 then 50 else vec_y p0);
                            x2 = (if x1 > real_of_int (worldWidth w - 50)
                                  then real_of_int (worldWidth w - 50) else x1);
                            y2 = (if y1 > real_of_int (worldHeight w - 50)
                                  then real_of_int (worldHeight w - 50) else y1)
                        in (addWaypoint car (Vector2 x2 y2), rng2)))))
      else (car, rng))"


text \<open>Braking and separation against one other vehicle, given by its position.\<close>

definition avoid :: "Car \<Rightarrow> Vector2 \<Rightarrow> Car" where
  "avoid car otherPos =
     (let dist = Vector2Distance (carPosition car) otherPos
      in if dist < 70 then
           (let car1 = (if Vector2Length (velocity car) > 10
                        then applyForce car (Vector2Scale (Vector2Normalize (velocity car)) (- 600))
                        else car);
                push = Vector2Normalize (Vector2Subtract (carPosition car1) otherPos);
                pushStrength = 500 * (1 - dist / 70)
            in applyForce car1 (Vector2Scale push pushStrength))
         else car)"

definition integrate :: "real \<Rightarrow> Car \<Rightarrow> Car" where
  "integrate dt car =
     (let v1 = Vector2Add (velocity car) (Vector2Scale (acceleration car) dt);
          v2 = (if Vector2Length v1 > maxSpeed car
                then Vector2Scale (Vector2Normalize v1) (maxSpeed car) else v1)
      in car\<lparr>velocity := v2, carPosition := Vector2Add (carPosition car) (Vector2Scale v2 dt),
              acceleration := Vector2 0 0\<rparr>)"


section \<open>Sample data\<close>

text \<open>
  A small map and two vehicles, used to run the definitions on concrete inputs. The
  configuration holds the values the comments of the sources quote (7 art pixels per metre,
  lane offsets 61 and 94, battery thresholds 30, 70, 80 and 95).
\<close>

definition sampleConfig :: Config where
  "sampleConfig =
     \<lparr>ART_PIXELS_PER_METER = 7, LANE_OFFSET_UP = 61, LANE_OFFSET_DOWN = 94,
      BATTERY_LOW_THRESHOLD = 30, BATTERY_HIGH_THRESHOLD = 70, BATTERY_EXIT_THRESHOLD = 80,
      BATTERY_FORCE_EXIT_THRESHOLD = 95, CHARGING_RATE = 5\<rparr>"

definition sampleSpot :: "SpotState \<Rightarrow> real \<Rightarrow> Spot" where
  "sampleSpot st p =
     \<lparr>localPosition = Vector2 3 4, orientation = 0, spotId = 0, state = st, price = p\<rparr>"

definition sampleRoad :: "ModuleKind \<Rightarrow> real \<Rightarrow> Module" where
  "sampleRoad k x0 =
     \<lparr>width = 40, height = 22, worldPosition = Vector2 x0 0, localWaypoints = [], spots = [],
      parent = None, kind = k\<rparr>"

definition sampleFacility :: "ModuleKind \<Rightarrow> Vector2 \<Rightarrow> nat option \<Rightarrow> Spot list \<Rightarrow> Module" where
  "sampleFacility k pos par ss =
     \<lparr>width = 39, height = 47, worldPosition = pos,
      localWaypoints = [WaypointAt (Vector2 31 23) 1], spots = ss, parent = par, kind = k\<rparr>"

definition sampleCar :: "CarType \<Rightarrow> Priority \<Rightarrow> real \<Rightarrow> CarState \<Rightarrow> Vehicle" where
  "sampleCar ty pr vx st =
     \<lparr>vehType = ty, batteryLevel = 50, priority = pr, vehPosition = Vector2 0 0,
      vehVelocity = Vector2 vx 0, enteredFromLeft = (vx > 0), vehState = st, path = [],
      parkedFacility = None, parkedSpot = sampleSpot FREE 0, parkedSpotIndex = - 1,
      readyToLeave = False, arrived = False\<rparr>"

text \<open>
  The scenario map: two boundary roads, an entrance road, and two parking facilities with
  one spot each, the first at distance 10 from the spawn point \<open>(0, 0)\<close> with price 5, the
  second at distance 50 with price 2; both spots are in the state given.
\<close>

definition scenarioMap :: "SpotState \<Rightarrow> Module list" where
  "scenarioMap st =
     [sampleRoad NormalRoad 0,
      sampleFacility (SmallParking True) (Vector2 10 0) (Some 3) [sampleSpot st 5],
      sampleFacility (LargeParking False) (Vector2 50 0) (Some 3) [sampleSpot st 2],
      sampleRoad DoubleEntranceRoad 40,
      sampleRoad NormalRoad 80]"







section \<open>Facts about the random source, the spots and the store\<close>

lemma GetRandomValue_range:
  assumes le: "lo \<le> hi"
  shows "lo \<le> fst (GetRandomValue lo hi rng) \<and> fst (GetRandomValue lo hi rng) \<le> hi"
proof (cases rng)
  case Nil
  with le show ?thesis by simp
next
  case (Cons r rs)
  have pos: "0 < hi - lo + 1" using le by simp
  have "0 \<le> int r mod (hi - lo + 1)" "int r mod (hi - lo + 1) < hi - lo + 1"
    using pos by (rule pos_mod_sign, rule pos_mod_bound)
  with Cons le show ?thesis by simp
qed

lemma freeSpotIndices_set:
  "set (freeSpotIndices m) = {i. i < length (spots m) \<and> state (spots m ! i) = FREE}"
  by (auto simp: freeSpotIndices_def)

lemma freeSpotIndices_distinct: "distinct (freeSpotIndices m)"
  by (simp add: freeSpotIndices_def)

lemma freeSpotIndices_empty_iff:
  "freeSpotIndices m = [] \<longleftrightarrow> \<not> (\<exists>i<length (spots m). state (spots m ! i) = FREE)"
  using freeSpotIndices_set [of m] by (metis (mono_tags, lifting) Collect_empty_eq set_empty)

lemma getRandomSpotIndex_none:
  "freeSpotIndices m = [] \<Longrightarrow> getRandomSpotIndex m rng = (- 1, rng)"
  by (simp add: getRandomSpotIndex_def)

lemma getRandomSpotIndex_some:
  assumes "freeSpotIndices m \<noteq> []"
  shows "\<exists>k < length (freeSpotIndices m). fst (getRandomSpotIndex m rng) = int (freeSpotIndices m ! k)"
proof -
  let ?n = "length (freeSpotIndices m)"
  have n: "(0::int) \<le> int ?n - 1" using assms by (cases "freeSpotIndices m") simp_all
  from GetRandomValue_range [OF n, of rng]
  have r: "0 \<le> fst (GetRandomValue 0 (int ?n - 1) rng)" "fst (GetRandomValue 0 (int ?n - 1) rng) \<le> int ?n - 1"
    by simp_all
  then have "nat (fst (GetRandomValue 0 (int ?n - 1) rng)) < ?n" by linarith
  then show ?thesis using assms
    by (auto simp: getRandomSpotIndex_def Let_def split: prod.split)
qed

lemma getRandomSpotIndex_free:
  assumes "freeSpotIndices m \<noteq> []"
  shows "0 \<le> fst (getRandomSpotIndex m rng)
       \<and> nat (fst (getRandomSpotIndex m rng)) < length (spots m)
       \<and> state (spots m ! nat (fst (getRandomSpotIndex m rng))) = FREE"
proof -
  from getRandomSpotIndex_some [OF assms, of rng] obtain k where
    k: "k < length (freeSpotIndices m)" "fst (getRandomSpotIndex m rng) = int (freeSpotIndices m ! k)"
    by blast
  then have "freeSpotIndices m ! k \<in> set (freeSpotIndices m)" by simp
  then show ?thesis using k(2) by (simp add: freeSpotIndices_set)
qed

lemma getRandomSpotIndex_sentinel_iff:
  "fst (getRandomSpotIndex m rng) = - 1 \<longleftrightarrow> freeSpotIndices m = []"
  using getRandomSpotIndex_free [of m rng] getRandomSpotIndex_none [of m rng] by fastforce

lemma getRandomSpotIndex_single_draw:
  assumes "r < length (freeSpotIndices m)"
  shows "fst (getRandomSpotIndex m [r]) = int (freeSpotIndices m ! r)"
  using assms by (auto simp: getRandomSpotIndex_def Let_def)


lemma setSpotState_spots_length [simp]:
  "length (spots (setSpotState m idx st)) = length (spots m)"
  by (simp add: setSpotState_def)

lemma setSpotStateAt_length [simp]: "length (setSpotStateAt mods fac idx st) = length mods"
  by (simp add: setSpotStateAt_def)

lemma setSpotStateAt_spots_length [simp]:
  "g < length mods \<Longrightarrow>
     length (spots (setSpotStateAt mods fac idx st ! g)) = length (spots (mods ! g))"
  by (cases "g = fac") (simp_all add: setSpotStateAt_def)

lemma promoteSpot_length [simp]: "length (promoteSpot mods car) = length mods"
  by (simp add: promoteSpot_def Let_def split: option.splits)

lemma promoteSpot_spots_length [simp]:
  "g < length mods \<Longrightarrow> length (spots (promoteSpot mods car ! g)) = length (spots (mods ! g))"
  by (simp add: promoteSpot_def Let_def split: option.splits)

lemma chooseExitRight_distance:
  "priority car = PRIORITY_DISTANCE \<Longrightarrow> chooseExitRight car rng = (\<not> enteredFromLeft car, rng)"
  by (simp add: chooseExitRight_def)

lemma chooseExitRight_other:
  "priority car \<noteq> PRIORITY_DISTANCE \<Longrightarrow>
     fst (chooseExitRight car rng) = (fst (GetRandomValue 0 1 rng) = 1)"
  by (simp add: chooseExitRight_def split: prod.splits)

lemma setSpotStateAt_state:
  "fac < length mods \<Longrightarrow> 0 \<le> idx \<Longrightarrow> nat idx < length (spots (mods ! fac)) \<Longrightarrow>
     state (spots (setSpotStateAt mods fac idx st ! fac) ! nat idx) = st"
  by (simp add: setSpotStateAt_def setSpotState_def)


lemma parkedLogic_keeps:
  "parkedLogic cfg dt mods car rng = (se, car1, rng1) \<Longrightarrow>
     priority car1 = priority car \<and> enteredFromLeft car1 = enteredFromLeft car
     \<and> parkedFacility car1 = parkedFacility car \<and> parkedSpot car1 = parkedSpot car
     \<and> parkedSpotIndex car1 = parkedSpotIndex car \<and> vehState car1 = vehState car
     \<and> vehType car1 = vehType car \<and> arrived car1 = arrived car"
  by (auto simp: parkedLogic_def charge_def Let_def split: if_splits prod.splits)


lemma card_residue_class:
  assumes "p < n"
  shows "card {r. r < k * n \<and> r mod n = p} = k"
proof -
  have "{r. r < k * n \<and> r mod n = p} = (\<lambda>q. q * n + p) ` {..<k}"
  proof (intro set_eqI iffI)
    fix r assume "r \<in> {r. r < k * n \<and> r mod n = p}"
    then have r: "r < k * n" "r mod n = p" by simp_all
    from r(1) assms have "r div n < k" by (simp add: less_mult_imp_div_less)
    moreover from r(2) have "r = (r div n) * n + p" by (metis div_mult_mod_eq)
    ultimately show "r \<in> (\<lambda>q. q * n + p) ` {..<k}" by blast
  next
    fix r assume "r \<in> (\<lambda>q. q * n + p) ` {..<k}"
    then obtain q where q: "q < k" "r = q * n + p" by blast
    from q(1) have "Suc q \<le> k" by simp
    then have "Suc q * n \<le> k * n" by (rule mult_le_mono1)
    moreover from assms have "q * n + p < Suc q * n" by simp
    ultimately have "r < k * n" using q(2) by simp
    moreover from q(2) assms have "r mod n = p" by simp
    ultimately show "r \<in> {r. r < k * n \<and> r mod n = p}" by simp
  qed
  moreover have "inj_on (\<lambda>q. q * n + p) {..<k}"
    using assms by (auto simp: inj_on_def)
  ultimately show ?thesis by (simp add: card_image)
qed

lemma getRandomSpotIndex_draw:
  assumes "freeSpotIndices m \<noteq> []"
  shows "getRandomSpotIndex m rng
           = (int (freeSpotIndices m ! nat (fst (GetRandomValue 0 (int (length (freeSpotIndices m)) - 1) rng))),
              snd (GetRandomValue 0 (int (length (freeSpotIndices m)) - 1) rng))"
  using assms by (simp add: getRandomSpotIndex_def Let_def split: prod.split)

lemma getRandomSpotIndex_raw:
  assumes "freeSpotIndices m \<noteq> []"
  shows "getRandomSpotIndex m (r # rs)
           = (int (freeSpotIndices m ! (r mod length (freeSpotIndices m))), rs)"
proof -
  let ?n = "length (freeSpotIndices m)"
  from assms have n: "0 < ?n" by simp
  then have a: "\<bar>int ?n - 1 - 0\<bar> + 1 = int ?n" "min 0 (int ?n - 1) = 0" by simp_all
  have "GetRandomValue 0 (int ?n - 1) (r # rs) = (int r mod int ?n, rs)"
    by (simp only: GetRandomValue.simps a) simp
  moreover have "nat (int r mod int ?n) = r mod ?n"
    by (simp add: nat_mod_distrib)
  ultimately show ?thesis using assms by (simp add: getRandomSpotIndex_def Let_def)
qed

lemma getRandomSpotIndex_count:
  assumes i: "i < length (spots m)" "state (spots m ! i) = FREE"
  shows "card {r. r < k * length (freeSpotIndices m) \<and> fst (getRandomSpotIndex m (r # rs)) = int i} = k"
proof -
  let ?xs = "freeSpotIndices m"
  from i have mem: "i \<in> set ?xs" by (simp add: freeSpotIndices_set)
  then have ne: "?xs \<noteq> []" by auto
  from mem obtain p where p: "p < length ?xs" "?xs ! p = i" by (auto simp: in_set_conv_nth)
  have n: "0 < length ?xs" using ne by simp
  have "\<And>r. (fst (getRandomSpotIndex m (r # rs)) = int i) = (r mod length ?xs = p)"
  proof -
    fix r
    have lt: "r mod length ?xs < length ?xs" using n by simp
    have "(fst (getRandomSpotIndex m (r # rs)) = int i) = (?xs ! (r mod length ?xs) = ?xs ! p)"
      by (simp add: getRandomSpotIndex_raw [OF ne] p(2))
    also have "\<dots> = (r mod length ?xs = p)"
      using nth_eq_iff_index_eq [OF freeSpotIndices_distinct lt p(1)] .
    finally show "(fst (getRandomSpotIndex m (r # rs)) = int i) = (r mod length ?xs = p)" .
  qed
  then have "{r. r < k * length ?xs \<and> fst (getRandomSpotIndex m (r # rs)) = int i}
      = {r. r < k * length ?xs \<and> r mod length ?xs = p}" by simp
  with card_residue_class [OF p(1), of k] show ?thesis by simp
qed

section \<open>Facts about the selection loops and the road bounds\<close>

lemma getSpotCounts_free_zero:
  "free (getSpotCounts m) = 0 \<longleftrightarrow> freeSpotIndices m = []"
proof -
  have "free (getSpotCounts m) = 0 \<longleftrightarrow> (\<forall>s\<in>set (spots m). state s \<noteq> FREE)"
    by (simp add: getSpotCounts_def filter_empty_conv)
  also have "\<dots> \<longleftrightarrow> \<not> (\<exists>i<length (spots m). state (spots m ! i) = FREE)"
    by (metis in_set_conv_nth)
  finally show ?thesis by (simp only: freeSpotIndices_empty_iff)
qed

lemma distanceLoop_full:
  assumes "\<forall>f\<in>set facs. freeSpotIndices (mods ! f) = []"
  shows "foldl (distanceStep mods carPos) sel facs = sel"
  using assms
proof (induction facs arbitrary: sel)
  case Nil
  show ?case by simp
next
  case (Cons f facs)
  obtain tf bi bm rng where sel: "sel = (tf, bi, bm, rng)" by (cases sel)
  from Cons.prems have "free (getSpotCounts (mods ! f)) = 0" by (simp add: getSpotCounts_free_zero)
  then have "distanceStep mods carPos sel f = sel" by (simp add: sel)
  with Cons show ?case by simp
qed

lemma priceLoop_full:
  assumes "\<forall>f\<in>set facs. freeSpotIndices (mods ! f) = []"
  shows "foldl (priceStep mods) sel facs = sel"
  using assms
proof (induction facs arbitrary: sel)
  case Nil
  show ?case by simp
next
  case (Cons f facs)
  obtain tf bi bm rng where sel: "sel = (tf, bi, bm, rng)" by (cases sel)
  from Cons.prems have "getRandomSpotIndex (mods ! f) rng = (- 1, rng)"
    by (simp add: getRandomSpotIndex_none)
  then have "priceStep mods sel f = sel" by (simp add: sel)
  with Cons show ?case by simp
qed

lemma determineSpot_full:
  assumes ne: "facs \<noteq> []" and full: "\<forall>f\<in>set facs. freeSpotIndices (mods ! f) = []"
  shows "fst (snd (determineSpot mods car facs rng)) = - 1"
proof -
  have sel: "selectByPriority mods car facs rng = (None, - 1, FLT_MAX, rng)"
    by (simp add: selectByPriority_def distanceLoop_full [OF full] priceLoop_full [OF full])
  obtain k rng2 where k: "GetRandomValue 0 (int (length facs) - 1) rng = (k, rng2)"
    by (cases "GetRandomValue 0 (int (length facs) - 1) rng")
  have le: "(0::int) \<le> int (length facs) - 1" using ne by (cases facs) simp_all
  from GetRandomValue_range [OF le, of rng] k have "0 \<le> k" "k \<le> int (length facs) - 1" by simp_all
  then have "nat k < length facs" by linarith
  then have "facs ! nat k \<in> set facs" by simp
  with full have "freeSpotIndices (mods ! (facs ! nat k)) = []" by blast
  then have "\<And>r. getRandomSpotIndex (mods ! (facs ! nat k)) r = (- 1, r)"
    by (simp add: getRandomSpotIndex_none)
  with sel k ne show ?thesis by (simp add: determineSpot_def)
qed

lemma boundsLoop:
  assumes "foldl boundsStep (a, b) mods = (mn, mx)"
  shows "mn \<le> a \<and> b \<le> mx
       \<and> (\<forall>m\<in>set mods. kind m = NormalRoad \<longrightarrow>
             mn \<le> vec_x (worldPosition m) \<and> vec_x (worldPosition m) + width m \<le> mx)"
  using assms
proof (induction mods arbitrary: a b)
  case Nil
  then show ?case by simp
next
  case (Cons m mods)
  obtain a' b' where step: "boundsStep (a, b) m = (a', b')" by (cases "boundsStep (a, b) m")
  with Cons.prems have "foldl boundsStep (a', b') mods = (mn, mx)" by simp
  from Cons.IH [OF this] have ih: "mn \<le> a'" "b' \<le> mx"
    "\<forall>m\<in>set mods. kind m = NormalRoad \<longrightarrow>
        mn \<le> vec_x (worldPosition m) \<and> vec_x (worldPosition m) + width m \<le> mx" by simp_all
  from step have s: "a' \<le> a" "b \<le> b'"
    "kind m = NormalRoad \<longrightarrow> a' \<le> vec_x (worldPosition m) \<and> vec_x (worldPosition m) + width m \<le> b'"
    by (auto simp: Let_def split: if_splits)
  from ih s show ?case by auto
qed

lemma roadBounds_beyond:
  assumes "m \<in> set mods" "kind m = NormalRoad"
  shows "fst (roadBounds mods) - 2 < vec_x (worldPosition m)
       \<and> vec_x (worldPosition m) + width m < snd (roadBounds mods) + 2"
proof -
  obtain mn mx where f: "foldl boundsStep (FLT_MAX, FLT_LOWEST) mods = (mn, mx)"
    by (cases "foldl boundsStep (FLT_MAX, FLT_LOWEST) mods")
  from boundsLoop [OF f] assms
  have b: "mn \<le> vec_x (worldPosition m)" "vec_x (worldPosition m) + width m \<le> mx" by auto
  have big: "0 < FLT_MAX" by (simp add: FLT_MAX_def)
  have rb: "roadBounds mods = (if mn = FLT_MAX then 0 else mn, if mx = FLT_LOWEST then 100 else mx)"
    by (simp add: roadBounds_def f)
  have lo: "(if mn = FLT_MAX then 0 else mn) - 2 < vec_x (worldPosition m)"
    using b(1) big by (cases "mn = FLT_MAX") simp_all
  have hi: "vec_x (worldPosition m) + width m < (if mx = FLT_LOWEST then 100 else mx) + 2"
    using b(2) big by (cases "mx = FLT_LOWEST") (simp_all add: FLT_LOWEST_def)
  from lo hi show ?thesis by (simp add: rb)
qed

lemma onCarSpawned_through:
  assumes dec: "decideSeekCharging cfg car rng = (seekCharging, rng1)"
    and ne: "eligibleFacilities mods (vehType car) seekCharging \<noteq> []"
    and ds: "determineSpot mods car (eligibleFacilities mods (vehType car) seekCharging) rng1
               = (tf, - 1, rng2)"
  shows "onCarSpawned cfg mods car rng
           = (mods, fst (throughTraffic mods car), ThroughTraffic (snd (throughTraffic mods car)), rng2)"
  unfolding onCarSpawned_def dec prod.case Let_def using ne
  by (simp add: ds split: prod.split)

lemma throughTraffic_eq:
  assumes rb: "roadBounds mods = (mn, mx)"
  shows "throughTraffic mods car
     = (car\<lparr>path := [mkWaypoint (Vector2 (if vec_x (vehVelocity car) > 0 then mx + 2 else mn - 2)
                                     (vec_y (vehPosition car))) 1 (- 1) 0 True],
             vehState := EXITING\<rparr>,
        [mkWaypoint (Vector2 (if vec_x (vehVelocity car) > 0 then mx + 2 else mn - 2)
                                     (vec_y (vehPosition car))) 1 (- 1) 0 True])"
  by (simp add: throughTraffic_def rb Let_def)


section \<open>Invariants of the two selection loops\<close>

lemma distanceStep_cases:
  assumes "distanceStep mods carPos (tf, bi, bm, rng) f = (tf1, bi1, bm1, rng1)"
  shows "((tf1, bi1, bm1) = (tf, bi, bm)
            \<and> (freeSpotIndices (mods ! f) \<noteq> [] \<longrightarrow>
                  bm \<le> Vector2Distance carPos (worldPosition (mods ! f))))
       \<or> (tf1 = Some f \<and> freeSpotIndices (mods ! f) \<noteq> []
            \<and> bm1 = Vector2Distance carPos (worldPosition (mods ! f)) \<and> bm1 < bm
            \<and> 0 \<le> bi1 \<and> nat bi1 < length (spots (mods ! f))
            \<and> state (spots (mods ! f) ! nat bi1) = FREE)"
proof (cases "freeSpotIndices (mods ! f) = []")
  case True
  then have "free (getSpotCounts (mods ! f)) = 0" by (simp add: getSpotCounts_free_zero)
  with assms True show ?thesis by simp
next
  case False
  then have nz: "free (getSpotCounts (mods ! f)) \<noteq> 0" by (simp add: getSpotCounts_free_zero)
  show ?thesis
  proof (cases "Vector2Distance carPos (worldPosition (mods ! f)) < bm")
    case far: False
    with assms nz show ?thesis by (simp add: Let_def)
  next
    case near: True
    obtain idx r where g: "getRandomSpotIndex (mods ! f) rng = (idx, r)"
      by (cases "getRandomSpotIndex (mods ! f) rng")
    from getRandomSpotIndex_free [OF False, of rng] g
    have idx: "0 \<le> idx" "nat idx < length (spots (mods ! f))"
      "state (spots (mods ! f) ! nat idx) = FREE" by simp_all
    then have "idx \<noteq> - 1" by simp
    with assms nz near g idx False show ?thesis by (simp add: Let_def)
  qed
qed

lemma distanceLoop_inv:
  assumes "foldl (distanceStep mods carPos) (tf, bi, bm, rng) facs = (tf', bi', bm', rng')"
  shows "bm' \<le> bm
       \<and> (\<forall>g\<in>set facs. freeSpotIndices (mods ! g) \<noteq> [] \<longrightarrow>
             bm' \<le> Vector2Distance carPos (worldPosition (mods ! g)))
       \<and> ((tf', bi', bm') = (tf, bi, bm)
          \<or> (\<exists>f\<in>set facs. tf' = Some f \<and> freeSpotIndices (mods ! f) \<noteq> []
                \<and> bm' = Vector2Distance carPos (worldPosition (mods ! f)) \<and> bm' < bm
                \<and> 0 \<le> bi' \<and> nat bi' < length (spots (mods ! f))
                \<and> state (spots (mods ! f) ! nat bi') = FREE))"
  using assms
proof (induction facs arbitrary: tf bi bm rng)
  case Nil
  then show ?case by simp
next
  case (Cons f facs)
  obtain tf1 bi1 bm1 rng1 where st: "distanceStep mods carPos (tf, bi, bm, rng) f = (tf1, bi1, bm1, rng1)"
    by (cases "distanceStep mods carPos (tf, bi, bm, rng) f") auto
  with Cons.prems have rest: "foldl (distanceStep mods carPos) (tf1, bi1, bm1, rng1) facs = (tf', bi', bm', rng')"
    by simp
  note ih = Cons.IH [OF rest]
  note sc = distanceStep_cases [OF st]
  from sc have le1: "bm1 \<le> bm" by auto
  from sc have f1: "freeSpotIndices (mods ! f) \<noteq> [] \<longrightarrow> bm1 \<le> Vector2Distance carPos (worldPosition (mods ! f))"
    by auto
  from ih le1 have A: "bm' \<le> bm" by simp
  from ih f1 have B: "\<forall>g\<in>set (f # facs). freeSpotIndices (mods ! g) \<noteq> [] \<longrightarrow>
             bm' \<le> Vector2Distance carPos (worldPosition (mods ! g))" by auto
  from ih have "(tf', bi', bm') = (tf1, bi1, bm1)
          \<or> (\<exists>f\<in>set facs. tf' = Some f \<and> freeSpotIndices (mods ! f) \<noteq> []
                \<and> bm' = Vector2Distance carPos (worldPosition (mods ! f)) \<and> bm' < bm1
                \<and> 0 \<le> bi' \<and> nat bi' < length (spots (mods ! f))
                \<and> state (spots (mods ! f) ! nat bi') = FREE)" by simp
  then have C: "(tf', bi', bm') = (tf, bi, bm)
          \<or> (\<exists>f\<in>set (f # facs). tf' = Some f \<and> freeSpotIndices (mods ! f) \<noteq> []
                \<and> bm' = Vector2Distance carPos (worldPosition (mods ! f)) \<and> bm' < bm
                \<and> 0 \<le> bi' \<and> nat bi' < length (spots (mods ! f))
                \<and> state (spots (mods ! f) ! nat bi') = FREE)"
  proof
    assume eq: "(tf', bi', bm') = (tf1, bi1, bm1)"
    from sc show ?thesis
    proof
      assume "(tf1, bi1, bm1) = (tf, bi, bm) \<and> (freeSpotIndices (mods ! f) \<noteq> [] \<longrightarrow>
                  bm \<le> Vector2Distance carPos (worldPosition (mods ! f)))"
      with eq show ?thesis by simp
    next
      assume "tf1 = Some f \<and> freeSpotIndices (mods ! f) \<noteq> []
            \<and> bm1 = Vector2Distance carPos (worldPosition (mods ! f)) \<and> bm1 < bm
            \<and> 0 \<le> bi1 \<and> nat bi1 < length (spots (mods ! f))
            \<and> state (spots (mods ! f) ! nat bi1) = FREE"
      with eq show ?thesis by simp
    qed
  next
    assume "\<exists>f\<in>set facs. tf' = Some f \<and> freeSpotIndices (mods ! f) \<noteq> []
                \<and> bm' = Vector2Distance carPos (worldPosition (mods ! f)) \<and> bm' < bm1
                \<and> 0 \<le> bi' \<and> nat bi' < length (spots (mods ! f))
                \<and> state (spots (mods ! f) ! nat bi') = FREE"
    then obtain f' where "f' \<in> set facs" "tf' = Some f'" "freeSpotIndices (mods ! f') \<noteq> []"
      "bm' = Vector2Distance carPos (worldPosition (mods ! f'))" "bm' < bm1"
      "0 \<le> bi'" "nat bi' < length (spots (mods ! f'))" "state (spots (mods ! f') ! nat bi') = FREE"
      by blast
    with le1 show ?thesis by (intro disjI2 bexI [of _ f']) auto
  qed
  from A B C show ?case by blast
qed

lemma priceSamples_sound:
  "(g, j, p) \<in> set (priceSamples mods facs rng) \<Longrightarrow>
     g \<in> set facs \<and> 0 \<le> j \<and> nat j < length (spots (mods ! g))
     \<and> state (spots (mods ! g) ! nat j) = FREE \<and> p = price (spots (mods ! g) ! nat j)"
proof (induction facs arbitrary: rng)
  case Nil
  then show ?case by simp
next
  case (Cons f facs)
  obtain idx r where gr: "getRandomSpotIndex (mods ! f) rng = (idx, r)"
    by (cases "getRandomSpotIndex (mods ! f) rng")
  show ?case
  proof (cases "freeSpotIndices (mods ! f) = []")
    case True
    with gr have "idx = - 1" using getRandomSpotIndex_none [OF True, of rng] by simp
    with Cons.prems gr have "(g, j, p) \<in> set (priceSamples mods facs r)" by simp
    from Cons.IH [OF this] show ?thesis by simp
  next
    case False
    from getRandomSpotIndex_free [OF False, of rng] gr
    have idx: "0 \<le> idx" "nat idx < length (spots (mods ! f))"
      "state (spots (mods ! f) ! nat idx) = FREE" by simp_all
    then have ne: "idx \<noteq> - 1" by simp
    from idx have gs: "getSpot (mods ! f) idx = Some (spots (mods ! f) ! nat idx)"
      by (simp add: getSpot_def)
    from Cons.prems gr ne gs
    have "(g, j, p) = (f, idx, price (spots (mods ! f) ! nat idx))
        \<or> (g, j, p) \<in> set (priceSamples mods facs r)" by simp
    then show ?thesis
    proof
      assume "(g, j, p) = (f, idx, price (spots (mods ! f) ! nat idx))"
      with idx show ?thesis by simp
    next
      assume "(g, j, p) \<in> set (priceSamples mods facs r)"
      from Cons.IH [OF this] show ?thesis by simp
    qed
  qed
qed

lemma priceStep_cases:
  assumes "priceStep mods (tf, bi, bm, rng) f = (tf1, bi1, bm1, rng1)"
  shows "rng1 = snd (getRandomSpotIndex (mods ! f) rng)
       \<and> (\<forall>s. priceSamples mods (f # facs) rng = s # priceSamples mods facs rng1 \<longrightarrow>
             bm1 \<le> snd (snd s))
       \<and> (((tf1, bi1, bm1) = (tf, bi, bm)
            \<and> (priceSamples mods (f # facs) rng = priceSamples mods facs rng1
                \<or> (\<exists>s. priceSamples mods (f # facs) rng = s # priceSamples mods facs rng1)))
          \<or> (tf1 = Some f \<and> bm1 < bm
              \<and> priceSamples mods (f # facs) rng = (f, bi1, bm1) # priceSamples mods facs rng1))"
proof -
  obtain idx r where gr: "getRandomSpotIndex (mods ! f) rng = (idx, r)"
    by (cases "getRandomSpotIndex (mods ! f) rng")
  show ?thesis
  proof (cases "idx = - 1")
    case True
    with assms gr show ?thesis by simp
  next
    case False
    show ?thesis
    proof (cases "getSpot (mods ! f) idx")
      case None
      with assms gr False show ?thesis by simp
    next
      case (Some s)
      with assms gr False show ?thesis by (cases "price s < bm") auto
    qed
  qed
qed

lemma priceLoop_inv:
  assumes "foldl (priceStep mods) (tf, bi, bm, rng) facs = (tf', bi', bm', rng')"
  shows "bm' \<le> bm
       \<and> (\<forall>s\<in>set (priceSamples mods facs rng). bm' \<le> snd (snd s))
       \<and> ((tf', bi', bm') = (tf, bi, bm)
          \<or> (\<exists>f. tf' = Some f \<and> (f, bi', bm') \<in> set (priceSamples mods facs rng) \<and> bm' < bm))"
  using assms
proof (induction facs arbitrary: tf bi bm rng)
  case Nil
  then show ?case by simp
next
  case (Cons f facs)
  note priceSamples.simps(2) [simp del]
  obtain tf1 bi1 bm1 rng1 where st: "priceStep mods (tf, bi, bm, rng) f = (tf1, bi1, bm1, rng1)"
    by (cases "priceStep mods (tf, bi, bm, rng) f") auto
  with Cons.prems have rest: "foldl (priceStep mods) (tf1, bi1, bm1, rng1) facs = (tf', bi', bm', rng')"
    by simp
  from Cons.IH [OF rest]
  have ih1: "bm' \<le> bm1"
    and ih2: "\<forall>s\<in>set (priceSamples mods facs rng1). bm' \<le> snd (snd s)"
    and ih3: "(tf', bi', bm') = (tf1, bi1, bm1)
          \<or> (\<exists>f. tf' = Some f \<and> (f, bi', bm') \<in> set (priceSamples mods facs rng1) \<and> bm' < bm1)"
    by simp_all
  from priceStep_cases [OF st, of facs]
  have head: "\<forall>s. priceSamples mods (f # facs) rng = s # priceSamples mods facs rng1 \<longrightarrow> bm1 \<le> snd (snd s)"
    and sc: "((tf1, bi1, bm1) = (tf, bi, bm)
            \<and> (priceSamples mods (f # facs) rng = priceSamples mods facs rng1
                \<or> (\<exists>s. priceSamples mods (f # facs) rng = s # priceSamples mods facs rng1)))
          \<or> (tf1 = Some f \<and> bm1 < bm
              \<and> priceSamples mods (f # facs) rng = (f, bi1, bm1) # priceSamples mods facs rng1)"
    by blast+
  from sc have le1: "bm1 \<le> bm" by auto
  from sc have shape: "priceSamples mods (f # facs) rng = priceSamples mods facs rng1
      \<or> (\<exists>s. priceSamples mods (f # facs) rng = s # priceSamples mods facs rng1)" by auto
  have sub: "set (priceSamples mods facs rng1) \<subseteq> set (priceSamples mods (f # facs) rng)"
    using shape by auto
  have A: "bm' \<le> bm" using ih1 le1 by simp
  have B: "\<forall>s\<in>set (priceSamples mods (f # facs) rng). bm' \<le> snd (snd s)"
  proof
    fix s assume s: "s \<in> set (priceSamples mods (f # facs) rng)"
    from shape show "bm' \<le> snd (snd s)"
    proof
      assume "priceSamples mods (f # facs) rng = priceSamples mods facs rng1"
      with s ih2 show ?thesis by simp
    next
      assume "\<exists>s. priceSamples mods (f # facs) rng = s # priceSamples mods facs rng1"
      then obtain s0 where s0: "priceSamples mods (f # facs) rng = s0 # priceSamples mods facs rng1" by blast
      with head have "bm1 \<le> snd (snd s0)" by blast
      with ih1 have "bm' \<le> snd (snd s0)" by simp
      with s s0 ih2 show ?thesis by auto
    qed
  qed
  have C: "(tf', bi', bm') = (tf, bi, bm)
          \<or> (\<exists>f'. tf' = Some f' \<and> (f', bi', bm') \<in> set (priceSamples mods (f # facs) rng) \<and> bm' < bm)"
    using ih3
  proof
    assume eq: "(tf', bi', bm') = (tf1, bi1, bm1)"
    from sc show ?thesis
    proof
      assume "(tf1, bi1, bm1) = (tf, bi, bm)
            \<and> (priceSamples mods (f # facs) rng = priceSamples mods facs rng1
                \<or> (\<exists>s. priceSamples mods (f # facs) rng = s # priceSamples mods facs rng1))"
      with eq show ?thesis by simp
    next
      assume "tf1 = Some f \<and> bm1 < bm
              \<and> priceSamples mods (f # facs) rng = (f, bi1, bm1) # priceSamples mods facs rng1"
      with eq show ?thesis by auto
    qed
  next
    assume "\<exists>f. tf' = Some f \<and> (f, bi', bm') \<in> set (priceSamples mods facs rng1) \<and> bm' < bm1"
    then obtain f' where "tf' = Some f'" "(f', bi', bm') \<in> set (priceSamples mods facs rng1)" "bm' < bm1"
      by blast
    with sub le1 show ?thesis by (intro disjI2 exI [of _ f']) auto
  qed
  from A B C show ?case by blast
qed

section \<open>The outcomes of the vehicle-spawned handler\<close>

lemma getRandomSpotIndex_cases:
  "fst (getRandomSpotIndex m rng) = - 1 \<or> isFreeSpot m (fst (getRandomSpotIndex m rng))"
  using getRandomSpotIndex_free [of m rng] getRandomSpotIndex_none [of m rng]
  by (cases "freeSpotIndices m = []") (simp_all add: isFreeSpot_def)

lemma modulesOfClass_valid: "f \<in> set (modulesOfClass mods isClass) \<Longrightarrow> f < length mods"
  by (simp add: modulesOfClass_def)

lemma eligibleFacilities_valid:
  "f \<in> set (eligibleFacilities mods ty sc) \<Longrightarrow> f < length mods"
  by (auto simp: eligibleFacilities_def Let_def dest: modulesOfClass_valid split: if_splits)

lemma selectByPriority_free:
  assumes "selectByPriority mods car facs rng = (tf, bi, bm, r)"
  shows "(tf = None \<and> bi = - 1) \<or> (\<exists>f\<in>set facs. tf = Some f \<and> isFreeSpot (mods ! f) bi)"
proof (cases "priority car = PRIORITY_DISTANCE")
  case True
  with assms have "foldl (distanceStep mods (vehPosition car)) (None, - 1, FLT_MAX, rng) facs = (tf, bi, bm, r)"
    by (simp add: selectByPriority_def)
  from distanceLoop_inv [OF this] show ?thesis by (auto simp: isFreeSpot_def)
next
  case False
  with assms have "foldl (priceStep mods) (None, - 1, FLT_MAX, rng) facs = (tf, bi, bm, r)"
    by (simp add: selectByPriority_def)
  from priceLoop_inv [OF this]
  have "(tf, bi, bm) = (None, - 1, FLT_MAX)
      \<or> (\<exists>f. tf = Some f \<and> (f, bi, bm) \<in> set (priceSamples mods facs rng))" by blast
  then show ?thesis
  proof
    assume "(tf, bi, bm) = (None, - 1, FLT_MAX)"
    then show ?thesis by simp
  next
    assume "\<exists>f. tf = Some f \<and> (f, bi, bm) \<in> set (priceSamples mods facs rng)"
    then obtain f where f: "tf = Some f" "(f, bi, bm) \<in> set (priceSamples mods facs rng)" by blast
    from priceSamples_sound [OF f(2)] f(1) show ?thesis by (auto simp: isFreeSpot_def)
  qed
qed

lemma determineSpot_selected:
  assumes "selectByPriority mods car facs rng = (Some f, bi, bm, r)" and "bi \<noteq> - 1"
  shows "determineSpot mods car facs rng = (Some f, bi, r)"
  using assms by (simp add: determineSpot_def)

lemma determineSpot_free:
  assumes ds: "determineSpot mods car facs rng = (tf, si, r)"
  shows "si = - 1 \<or> (\<exists>f\<in>set facs. tf = Some f \<and> isFreeSpot (mods ! f) si)"
proof -
  obtain tf0 bi0 bm0 r0 where sel: "selectByPriority mods car facs rng = (tf0, bi0, bm0, r0)"
    by (cases "selectByPriority mods car facs rng") auto
  note sf = selectByPriority_free [OF sel]
  show ?thesis
  proof (cases "tf0 = None \<or> bi0 = - 1")
    case False
    then obtain f where f: "tf0 = Some f" "bi0 \<noteq> - 1" by auto
    with sel have "determineSpot mods car facs rng = (Some f, bi0, r0)"
      by (simp add: determineSpot_selected)
    with ds sf f show ?thesis by auto
  next
    case True
    show ?thesis
    proof (cases "facs = []")
      case True
      with sf have "tf0 = None" "bi0 = - 1" by auto
      with sel True ds show ?thesis by (simp add: determineSpot_def)
    next
      case ne: False
      obtain k r1 where k: "GetRandomValue 0 (int (length facs) - 1) r0 = (k, r1)"
        by (cases "GetRandomValue 0 (int (length facs) - 1) r0")
      have le: "(0::int) \<le> int (length facs) - 1" using ne by (cases facs) simp_all
      from GetRandomValue_range [OF le, of r0] k have "0 \<le> k" "k \<le> int (length facs) - 1" by simp_all
      then have "nat k < length facs" by linarith
      then have mem: "facs ! nat k \<in> set facs" by simp
      let ?f = "facs ! nat k"
      obtain i1 r2 where g1: "getRandomSpotIndex (mods ! ?f) r1 = (i1, r2)"
        by (cases "getRandomSpotIndex (mods ! ?f) r1")
      obtain i2 r3 where g2: "getRandomSpotIndex (mods ! ?f) r2 = (i2, r3)"
        by (cases "getRandomSpotIndex (mods ! ?f) r2")
      from getRandomSpotIndex_cases [of "mods ! ?f" r1] g1
      have c1: "i1 = - 1 \<or> isFreeSpot (mods ! ?f) i1" by simp
      from getRandomSpotIndex_cases [of "mods ! ?f" r2] g2
      have c2: "i2 = - 1 \<or> isFreeSpot (mods ! ?f) i2" by simp
      from True sel k g1 g2 ne ds
      have "(tf, si) = (Some ?f, if i1 = - 1 then i2 else i1)"
        by (simp add: determineSpot_def split: if_splits)
      with c1 c2 mem show ?thesis by (cases "i1 = - 1") auto
    qed
  qed
qed

lemma isFreeSpot_getSpot:
  "isFreeSpot m idx \<Longrightarrow> getSpot m idx = Some (spots m ! nat idx)"
  by (simp add: isFreeSpot_def getSpot_def)

lemma setSpotStateAt_getSpot:
  assumes "f < length mods" "isFreeSpot (mods ! f) idx"
  shows "getSpot (setSpotStateAt mods f idx st ! f) idx = Some ((spots (mods ! f) ! nat idx)\<lparr>state := st\<rparr>)"
  using assms by (simp add: isFreeSpot_def getSpot_def setSpotStateAt_def setSpotState_def)

lemma onCarSpawned_reserved:
  assumes dec: "decideSeekCharging cfg car rng = (seekCharging, rng1)"
    and ne: "eligibleFacilities mods (vehType car) seekCharging \<noteq> []"
    and ds: "determineSpot mods car (eligibleFacilities mods (vehType car) seekCharging) rng1
               = (Some f, si, rng2)"
    and f: "f < length mods" and si: "isFreeSpot (mods ! f) si"
  shows "onCarSpawned cfg mods car rng
           = (setSpotStateAt mods f si RESERVED,
              car\<lparr>parkedFacility := Some f,
                  parkedSpot := (spots (mods ! f) ! nat si)\<lparr>state := RESERVED\<rparr>,
                  parkedSpotIndex := si\<rparr>,
              PathAssigned (GeneratePath cfg (setSpotStateAt mods f si RESERVED) car
                              (setSpotStateAt mods f si RESERVED ! f)
                              ((spots (mods ! f) ! nat si)\<lparr>state := RESERVED\<rparr>)),
              rng2)"
proof -
  from si have n1: "si \<noteq> - 1" by (simp add: isFreeSpot_def)
  note gs = setSpotStateAt_getSpot [OF f si, of RESERVED]
  show ?thesis
    unfolding onCarSpawned_def dec prod.case Let_def using ne n1
    by (simp add: ds gs)
qed

lemma onCarSpawned_none:
  assumes dec: "decideSeekCharging cfg car rng = (seekCharging, rng1)"
    and e: "eligibleFacilities mods (vehType car) seekCharging = []"
  shows "onCarSpawned cfg mods car rng = (mods, car, NoFacilities, rng1)"
  unfolding onCarSpawned_def dec prod.case Let_def using e by simp

lemma onCarSpawned_cases:
  assumes result: "onCarSpawned cfg mods car rng = (mods', car', outcome, rng')"
  shows "(mods' = mods \<and> car' = car \<and> outcome = NoFacilities)
       \<or> (mods' = mods \<and> (car', outcome) = (fst (throughTraffic mods car),
                                              ThroughTraffic (snd (throughTraffic mods car))))
       \<or> (\<exists>f si. f < length mods \<and> isFreeSpot (mods ! f) si
             \<and> mods' = setSpotStateAt mods f si RESERVED
             \<and> car' = car\<lparr>parkedFacility := Some f,
                           parkedSpot := (spots (mods ! f) ! nat si)\<lparr>state := RESERVED\<rparr>,
                           parkedSpotIndex := si\<rparr>
             \<and> outcome = PathAssigned (GeneratePath cfg mods' car (mods' ! f)
                              ((spots (mods ! f) ! nat si)\<lparr>state := RESERVED\<rparr>)))"
proof -
  obtain sc rng1 where dec: "decideSeekCharging cfg car rng = (sc, rng1)"
    by (cases "decideSeekCharging cfg car rng")
  let ?facs = "eligibleFacilities mods (vehType car) sc"
  show ?thesis
  proof (cases "?facs = []")
    case True
    from onCarSpawned_none [OF dec True] result show ?thesis by simp
  next
    case False
    obtain tf si rng2 where ds: "determineSpot mods car ?facs rng1 = (tf, si, rng2)"
      by (cases "determineSpot mods car ?facs rng1")
    from determineSpot_free [OF ds]
    show ?thesis
    proof
      assume "si = - 1"
      with ds have "determineSpot mods car ?facs rng1 = (tf, - 1, rng2)" by simp
      from onCarSpawned_through [OF dec False this] result show ?thesis by simp
    next
      assume "\<exists>f\<in>set ?facs. tf = Some f \<and> isFreeSpot (mods ! f) si"
      then obtain f where f: "f \<in> set ?facs" "tf = Some f" "isFreeSpot (mods ! f) si" by blast
      from f(1) have fl: "f < length mods" by (rule eligibleFacilities_valid)
      from ds f(2) have "determineSpot mods car ?facs rng1 = (Some f, si, rng2)" by simp
      from onCarSpawned_reserved [OF dec False this fl f(3)] result fl f(3)
      show ?thesis by (intro disjI2 exI [of _ f] exI [of _ si]) auto
    qed
  qed
qed

lemma onCarSpawned_has_spot:
  "fst (snd (snd (onCarSpawned cfg mods car rng))) \<noteq> NoSpotData"
proof -
  obtain mods' car' outcome rng' where r: "onCarSpawned cfg mods car rng = (mods', car', outcome, rng')"
    by (cases "onCarSpawned cfg mods car rng") auto
  from onCarSpawned_cases [OF r] have "outcome \<noteq> NoSpotData" by auto
  with r show ?thesis by simp
qed

lemma priceSamples_complete:
  assumes "g \<in> set facs" "freeSpotIndices (mods ! g) \<noteq> []"
  shows "\<exists>j p. (g, j, p) \<in> set (priceSamples mods facs rng)"
  using assms
proof (induction facs arbitrary: rng)
  case Nil
  then show ?case by simp
next
  case (Cons f facs)
  obtain idx r where gr: "getRandomSpotIndex (mods ! f) rng = (idx, r)"
    by (cases "getRandomSpotIndex (mods ! f) rng")
  show ?case
  proof (cases "g = f")
    case True
    from getRandomSpotIndex_free [of "mods ! f" rng] Cons.prems(2) True gr
    have idx: "0 \<le> idx" "nat idx < length (spots (mods ! f))" by simp_all
    then have "idx \<noteq> - 1" "getSpot (mods ! f) idx = Some (spots (mods ! f) ! nat idx)"
      by (simp_all add: getSpot_def)
    with gr True show ?thesis by auto
  next
    case False
    with Cons.prems have "g \<in> set facs" by simp
    from Cons.IH [OF this Cons.prems(2), of r] obtain j p where
      "(g, j, p) \<in> set (priceSamples mods facs r)" by blast
    then have "(g, j, p) \<in> set (priceSamples mods (f # facs) rng)"
      using gr by (auto split: option.split)
    then show ?thesis by blast
  qed
qed


section \<open>The scenario map, evaluated\<close>

lemma scenario_eligible:
  "eligibleFacilities (scenarioMap st) COMBUSTION False = [1, 2]"
  by (simp add: eligibleFacilities_def modulesOfClass_def scenarioMap_def sampleRoad_def
      sampleFacility_def upt_rec)

lemma scenario_decide:
  "decideSeekCharging sampleConfig (sampleCar COMBUSTION pr 15 DRIVING) [] = (False, [])"
  by (simp add: decideSeekCharging_def sampleCar_def)

lemma scenario_distances:
  "Vector2Distance (vehPosition (sampleCar COMBUSTION pr 15 DRIVING)) (worldPosition (scenarioMap st ! 1)) = 10"
  "Vector2Distance (vehPosition (sampleCar COMBUSTION pr 15 DRIVING)) (worldPosition (scenarioMap st ! 2)) = 50"
proof -
  have "sqrt (10 * 10) = \<bar>10::real\<bar>" "sqrt (50 * 50) = \<bar>50::real\<bar>"
    by (rule real_sqrt_abs2)+
  then have "sqrt 100 = 10" "sqrt 2500 = 50" by simp_all
  then show "Vector2Distance (vehPosition (sampleCar COMBUSTION pr 15 DRIVING)) (worldPosition (scenarioMap st ! 1)) = 10"
    "Vector2Distance (vehPosition (sampleCar COMBUSTION pr 15 DRIVING)) (worldPosition (scenarioMap st ! 2)) = 50"
    by (simp_all add: Vector2Distance_def sampleCar_def scenarioMap_def sampleFacility_def)
qed

lemma scenario_free:
  "\<exists>i<length (spots (scenarioMap FREE ! 1)). state (spots (scenarioMap FREE ! 1) ! i) = FREE"
  "\<exists>i<length (spots (scenarioMap FREE ! 2)). state (spots (scenarioMap FREE ! 2) ! i) = FREE"
  by (simp_all add: scenarioMap_def sampleFacility_def sampleSpot_def)

lemma scenario_samples:
  "priceSamples (scenarioMap FREE) [1, 2] [] = [(1, 0, 5), (2, 0, 2)]"
  by (simp add: getRandomSpotIndex_def freeSpotIndices_def getSpot_def scenarioMap_def
      sampleFacility_def sampleSpot_def)


section \<open>Facts about the vehicle's own update\<close>

lemma seek_keeps [simp]:
  "waypoints (seek car target) = waypoints car" "carPosition (seek car target) = carPosition car"
  "world (seek car target) = world car"
  by (simp_all add: seek_def applyForce_def Let_def)

lemma avoid_keeps [simp]: "waypoints (avoid car p) = waypoints car"
  by (simp add: avoid_def applyForce_def Let_def)

lemma avoid_all_keeps [simp]: "waypoints (foldl avoid car ps) = waypoints car"
  by (induction ps arbitrary: car) simp_all

lemma integrate_keeps [simp]: "waypoints (integrate dt car) = waypoints car"
  by (simp add: integrate_def Let_def)




lemma ensureWaypoint_filler:
  assumes "waypoints car = []" "world car = Some w"
  shows "length (waypoints (fst (ensureWaypoint car rng))) = 1"
  using assms by (simp add: ensureWaypoint_def addWaypoint_def Let_def split: prod.split)



section \<open>What one handler step does to one spot\<close>












section \<open>The stores of a run\<close>








section \<open>Properties of the path planner\<close>

text \<open>
  C3. For every vehicle, target facility and target spot, the entry path of
  \<open>GeneratePath\<close> has exactly four waypoints; the last one has \<open>stopAtEnd = true\<close>, the spot's
  orientation as its entry angle, the facility's world position plus the spot's local
  position as its position, and a tolerance strictly below the tolerance of each of the
  first three waypoints.
\<close>

theorem GeneratePath_entry_shape:
  "length (GeneratePath cfg mods car targetFac targetSpot) = 4
   \<and> stopAtEnd (last (GeneratePath cfg mods car targetFac targetSpot)) = True
   \<and> entryAngle (last (GeneratePath cfg mods car targetFac targetSpot)) = orientation targetSpot
   \<and> position (last (GeneratePath cfg mods car targetFac targetSpot))
       = Vector2Add (worldPosition targetFac) (localPosition targetSpot)
   \<and> tolerance (last (GeneratePath cfg mods car targetFac targetSpot))
       < tolerance (GeneratePath cfg mods car targetFac targetSpot ! 0)
   \<and> tolerance (last (GeneratePath cfg mods car targetFac targetSpot))
       < tolerance (GeneratePath cfg mods car targetFac targetSpot ! 1)
   \<and> tolerance (last (GeneratePath cfg mods car targetFac targetSpot))
       < tolerance (GeneratePath cfg mods car targetFac targetSpot ! 2)"
  by (simp add: GeneratePath_def Let_def CalculateSpotPoint_def CalculateAlignmentPoint_def
      CalculateFacilityEntry_def CalculateRoadEntry_def mkWaypoint_def WaypointAt_def
      split: option.split)

text \<open>
  C4. The lane and the side of \<open>GeneratePath\<close> depend only on the sign of the vehicle's
  x-velocity and on whether the facility is a top one. There are exactly two lanes; a
  positive x-velocity gives the DOWN lane and any other the UP lane; a top facility gives
  the right-hand offset \<open>+P2M(18)\<close> and a bottom one the left-hand offset \<open>-P2M(18)\<close>, in the
  road-entry waypoint and in the facility-entry waypoint alike; two vehicles whose
  x-velocities have the same sign get the same lane, two facilities that agree on \<open>isUp\<close>
  the same side, and two such vehicles the same path to one spot.
\<close>

theorem lane_side_selection:
  "(\<forall>l::Lane. l = UP \<or> l = DOWN) \<and> UP \<noteq> DOWN
   \<and> chosenLane car = (if vec_x (vehVelocity car) > 0 then DOWN else UP)
   \<and> useRightSide fac = isUp fac
   \<and> (getParent mods fac = Some road \<longrightarrow>
        position (GeneratePath cfg mods car fac spot ! 0)
          = Vector2Add (worldPosition road)
              (Vector2 (P2M cfg 142 + (if isUp fac then P2M cfg 18 else - P2M cfg 18))
                       (if vec_x (vehVelocity car) > 0 then P2M cfg (LANE_OFFSET_DOWN cfg)
                        else P2M cfg (LANE_OFFSET_UP cfg))))
   \<and> position (GeneratePath cfg mods car fac spot ! 1)
          = Vector2Add (worldPosition fac)
              (Vector2Add (case localWaypoints fac of
                             [] \<Rightarrow> Vector2 (width fac / 2) (height fac / 2)
                           | wp # _ \<Rightarrow> position wp)
                 (Vector2 (if isUp fac then P2M cfg 18 else - P2M cfg 18) 0))
   \<and> (sgn (vec_x (vehVelocity car)) = sgn (vec_x (vehVelocity car2)) \<and> isUp fac = isUp fac2 \<longrightarrow>
         chosenLane car = chosenLane car2 \<and> useRightSide fac = useRightSide fac2
         \<and> GeneratePath cfg mods car fac spot = GeneratePath cfg mods car2 fac spot)"
  apply (intro conjI)
  subgoal by (auto intro: Lane.exhaust)
  subgoal by simp
  subgoal by (simp add: chosenLane_def)
  subgoal by (simp add: useRightSide_def)
  subgoal by (simp add: GeneratePath_def Let_def CalculateRoadEntry_def WaypointAt_def
        mkWaypoint_def chosenLane_def useRightSide_def)
  subgoal by (simp add: GeneratePath_def Let_def CalculateFacilityEntry_def WaypointAt_def
        mkWaypoint_def chosenLane_def useRightSide_def)
  subgoal by (auto simp add: GeneratePath_def Let_def chosenLane_def useRightSide_def
        sgn_real_def split: if_splits)
  done

theorem lane_side_selection_witness:
  "getParent [sampleRoad UpEntranceRoad 40,
              sampleFacility (SmallParking True) (Vector2 40 (- 47)) (Some 0) [sampleSpot FREE 5]]
     (sampleFacility (SmallParking True) (Vector2 40 (- 47)) (Some 0) [sampleSpot FREE 5])
     = Some (sampleRoad UpEntranceRoad 40)
   \<and> position (GeneratePath sampleConfig
         [sampleRoad UpEntranceRoad 40,
          sampleFacility (SmallParking True) (Vector2 40 (- 47)) (Some 0) [sampleSpot FREE 5]]
         (sampleCar COMBUSTION PRIORITY_DISTANCE 15 DRIVING)
         (sampleFacility (SmallParking True) (Vector2 40 (- 47)) (Some 0) [sampleSpot FREE 5])
         (sampleSpot FREE 5) ! 0)
       = Vector2 (40 + 160 / 7) (94 / 7)
   \<and> sgn (vec_x (vehVelocity (sampleCar COMBUSTION PRIORITY_DISTANCE 15 DRIVING)))
       = sgn (vec_x (vehVelocity (sampleCar ELECTRIC PRIORITY_PRICE 3 DRIVING)))
   \<and> chosenLane (sampleCar COMBUSTION PRIORITY_DISTANCE 15 DRIVING) = DOWN
   \<and> chosenLane (sampleCar ELECTRIC PRIORITY_PRICE 3 DRIVING) = DOWN
   \<and> GeneratePath sampleConfig
         [sampleRoad UpEntranceRoad 40,
          sampleFacility (SmallParking True) (Vector2 40 (- 47)) (Some 0) [sampleSpot FREE 5]]
         (sampleCar COMBUSTION PRIORITY_DISTANCE 15 DRIVING)
         (sampleFacility (SmallParking True) (Vector2 40 (- 47)) (Some 0) [sampleSpot FREE 5])
         (sampleSpot FREE 5)
     = GeneratePath sampleConfig
         [sampleRoad UpEntranceRoad 40,
          sampleFacility (SmallParking True) (Vector2 40 (- 47)) (Some 0) [sampleSpot FREE 5]]
         (sampleCar ELECTRIC PRIORITY_PRICE 3 DRIVING)
         (sampleFacility (SmallParking True) (Vector2 40 (- 47)) (Some 0) [sampleSpot FREE 5])
         (sampleSpot FREE 5)"
proof -
  let ?fac = "sampleFacility (SmallParking True) (Vector2 40 (- 47)) (Some 0) [sampleSpot FREE 5]"
  let ?road = "sampleRoad UpEntranceRoad 40"
  let ?carA = "sampleCar COMBUSTION PRIORITY_DISTANCE 15 DRIVING"
  let ?carB = "sampleCar ELECTRIC PRIORITY_PRICE 3 DRIVING"
  have par: "getParent [?road, ?fac] ?fac = Some ?road"
    by (simp add: getParent_def deref_def sampleFacility_def)
  have sg: "sgn (vec_x (vehVelocity ?carA)) = sgn (vec_x (vehVelocity ?carB))"
    by (simp add: sampleCar_def)
  have vA: "vec_x (vehVelocity ?carA) > 0" and vB: "vec_x (vehVelocity ?carB) > 0"
    by (simp_all add: sampleCar_def)
  have up: "isUp ?fac" by (simp add: isUp_def sampleFacility_def)
  have pos: "Vector2Add (worldPosition ?road)
               (Vector2 (P2M sampleConfig 142 + P2M sampleConfig 18)
                        (P2M sampleConfig (LANE_OFFSET_DOWN sampleConfig)))
             = Vector2 (40 + 160 / 7) (94 / 7)"
    by (simp add: Vector2Add_def sampleRoad_def P2M_def sampleConfig_def)
  note inst = lane_side_selection [where car = ?carA and ?car2.0 = ?carB and fac = ?fac
      and ?fac2.0 = ?fac and mods = "[?road, ?fac]" and road = ?road and cfg = sampleConfig
      and spot = "sampleSpot FREE 5"]
  from inst have lanes: "chosenLane ?carA = chosenLane ?carB" using sg by blast
  from inst have laneA: "chosenLane ?carA = DOWN" using vA by simp
  from inst have paths: "GeneratePath sampleConfig [?road, ?fac] ?carA ?fac (sampleSpot FREE 5)
      = GeneratePath sampleConfig [?road, ?fac] ?carB ?fac (sampleSpot FREE 5)" using sg by blast
  from inst par have "position (GeneratePath sampleConfig [?road, ?fac] ?carA ?fac (sampleSpot FREE 5) ! 0)
      = Vector2Add (worldPosition ?road)
          (Vector2 (P2M sampleConfig 142 + (if isUp ?fac then P2M sampleConfig 18 else - P2M sampleConfig 18))
             (if vec_x (vehVelocity ?carA) > 0 then P2M sampleConfig (LANE_OFFSET_DOWN sampleConfig)
              else P2M sampleConfig (LANE_OFFSET_UP sampleConfig)))"
    by blast
  with up vA pos have first: "position (GeneratePath sampleConfig [?road, ?fac] ?carA ?fac (sampleSpot FREE 5) ! 0)
      = Vector2 (40 + 160 / 7) (94 / 7)" by simp
  from par first sg laneA lanes paths show ?thesis by simp
qed

text \<open>
  C10. For every target facility whose parent reference is null, \<open>GeneratePath\<close> puts the
  facility's own entry point where the road-entry waypoint would be: the path still has
  exactly four waypoints, and its first and second waypoints are the same facility-entry
  waypoint for the chosen side.
\<close>

theorem GeneratePath_no_parent:
  assumes "parent targetFac = None"
  shows "length (GeneratePath cfg mods car targetFac targetSpot) = 4
   \<and> GeneratePath cfg mods car targetFac targetSpot ! 0
       = CalculateFacilityEntry cfg targetFac (useRightSide targetFac)
   \<and> GeneratePath cfg mods car targetFac targetSpot ! 1
       = CalculateFacilityEntry cfg targetFac (useRightSide targetFac)
   \<and> GeneratePath cfg mods car targetFac targetSpot ! 0
       = GeneratePath cfg mods car targetFac targetSpot ! 1"
  using assms by (simp add: GeneratePath_def Let_def getParent_def deref_def)

theorem GeneratePath_no_parent_witness:
  "parent (sampleFacility (LargeParking False) (Vector2 40 22) None [sampleSpot FREE 2]) = None
   \<and> length (GeneratePath sampleConfig []
        (sampleCar COMBUSTION PRIORITY_PRICE (- 15) DRIVING)
        (sampleFacility (LargeParking False) (Vector2 40 22) None [sampleSpot FREE 2])
        (sampleSpot FREE 2)) = 4
   \<and> GeneratePath sampleConfig []
        (sampleCar COMBUSTION PRIORITY_PRICE (- 15) DRIVING)
        (sampleFacility (LargeParking False) (Vector2 40 22) None [sampleSpot FREE 2])
        (sampleSpot FREE 2) ! 0
     = WaypointAt (Vector2 (71 - 18 / 7) 45) 1.5
   \<and> GeneratePath sampleConfig []
        (sampleCar COMBUSTION PRIORITY_PRICE (- 15) DRIVING)
        (sampleFacility (LargeParking False) (Vector2 40 22) None [sampleSpot FREE 2])
        (sampleSpot FREE 2) ! 1
     = WaypointAt (Vector2 (71 - 18 / 7) 45) 1.5"
proof -
  let ?fac = "sampleFacility (LargeParking False) (Vector2 40 22) None [sampleSpot FREE 2]"
  have par: "parent ?fac = None" by (simp add: sampleFacility_def)
  have entry: "CalculateFacilityEntry sampleConfig ?fac (useRightSide ?fac)
      = WaypointAt (Vector2 (71 - 18 / 7) 45) 1.5"
    by (simp add: sampleFacility_def CalculateFacilityEntry_def useRightSide_def isUp_def
        sampleConfig_def P2M_def Vector2Add_def WaypointAt_def mkWaypoint_def)
  from GeneratePath_no_parent [OF par, of sampleConfig "[]"
      "sampleCar COMBUSTION PRIORITY_PRICE (- 15) DRIVING" "sampleSpot FREE 2"] par entry
  show ?thesis by simp
qed

section \<open>Properties of the spot selection\<close>

text \<open>
  C2. For every facility, \<open>getRandomSpotIndex\<close> returns the sentinel \<open>-1\<close> if and only if the
  facility has no FREE spot; when at least one spot is FREE it returns the index of a FREE
  spot, chosen uniformly among the FREE spots. Uniformity is stated in full: with \<open>n\<close> FREE
  spots, listed without repetition, the result for every random source is the FREE index
  at the position given by the one draw \<open>GetRandomValue(0, n - 1)\<close>, which is the raw draw
  modulo \<open>n\<close>; so the \<open>n\<close> values of the draw are in one-to-one correspondence with the FREE
  indices, and among the raw draws below \<open>k * n\<close> exactly \<open>k\<close> select each FREE spot.
\<close>

theorem getRandomSpotIndex_contract:
  "(fst (getRandomSpotIndex m rng) = - 1 \<longleftrightarrow> \<not> (\<exists>i<length (spots m). state (spots m ! i) = FREE))
   \<and> ((\<exists>i<length (spots m). state (spots m ! i) = FREE) \<longrightarrow>
         0 \<le> fst (getRandomSpotIndex m rng)
         \<and> nat (fst (getRandomSpotIndex m rng)) < length (spots m)
         \<and> state (spots m ! nat (fst (getRandomSpotIndex m rng))) = FREE)
   \<and> set (freeSpotIndices m) = {i. i < length (spots m) \<and> state (spots m ! i) = FREE}
   \<and> distinct (freeSpotIndices m)
   \<and> ((\<exists>i<length (spots m). state (spots m ! i) = FREE) \<longrightarrow>
         getRandomSpotIndex m rng
           = (int (freeSpotIndices m !
                     nat (fst (GetRandomValue 0 (int (length (freeSpotIndices m)) - 1) rng))),
              snd (GetRandomValue 0 (int (length (freeSpotIndices m)) - 1) rng))
         \<and> getRandomSpotIndex m (r # rs)
             = (int (freeSpotIndices m ! (r mod length (freeSpotIndices m))), rs))
   \<and> bij_betw (\<lambda>r. nat (fst (getRandomSpotIndex m [r])))
        {..<length (freeSpotIndices m)}
        {i. i < length (spots m) \<and> state (spots m ! i) = FREE}
   \<and> (j < length (spots m) \<and> state (spots m ! j) = FREE \<longrightarrow>
         card {r. r < k * length (freeSpotIndices m) \<and> fst (getRandomSpotIndex m (r # rs)) = int j}
           = k)"
proof (intro conjI impI)
  show "fst (getRandomSpotIndex m rng) = - 1 \<longleftrightarrow> \<not> (\<exists>i<length (spots m). state (spots m ! i) = FREE)"
    by (simp only: getRandomSpotIndex_sentinel_iff freeSpotIndices_empty_iff)
next
  assume "\<exists>i<length (spots m). state (spots m ! i) = FREE"
  then have ne: "freeSpotIndices m \<noteq> []" by (simp add: freeSpotIndices_empty_iff)
  from getRandomSpotIndex_free [OF ne, of rng]
  show "0 \<le> fst (getRandomSpotIndex m rng)"
    and "nat (fst (getRandomSpotIndex m rng)) < length (spots m)"
    and "state (spots m ! nat (fst (getRandomSpotIndex m rng))) = FREE" by simp_all
next
  show "set (freeSpotIndices m) = {i. i < length (spots m) \<and> state (spots m ! i) = FREE}"
    by (rule freeSpotIndices_set)
next
  show "distinct (freeSpotIndices m)" by (rule freeSpotIndices_distinct)
next
  assume "\<exists>i<length (spots m). state (spots m ! i) = FREE"
  then have ne: "freeSpotIndices m \<noteq> []" by (simp add: freeSpotIndices_empty_iff)
  show "getRandomSpotIndex m rng
           = (int (freeSpotIndices m !
                     nat (fst (GetRandomValue 0 (int (length (freeSpotIndices m)) - 1) rng))),
              snd (GetRandomValue 0 (int (length (freeSpotIndices m)) - 1) rng))"
    by (rule getRandomSpotIndex_draw [OF ne])
  show "getRandomSpotIndex m (r # rs)
             = (int (freeSpotIndices m ! (r mod length (freeSpotIndices m))), rs)"
    by (rule getRandomSpotIndex_raw [OF ne])
next
  have "bij_betw (\<lambda>r. freeSpotIndices m ! r) {..<length (freeSpotIndices m)} (set (freeSpotIndices m))"
    by (rule bij_betw_nth) (simp_all add: freeSpotIndices_distinct)
  moreover have "\<And>r. r \<in> {..<length (freeSpotIndices m)} \<Longrightarrow>
      nat (fst (getRandomSpotIndex m [r])) = freeSpotIndices m ! r"
    by (simp add: getRandomSpotIndex_single_draw)
  ultimately have "bij_betw (\<lambda>r. nat (fst (getRandomSpotIndex m [r])))
       {..<length (freeSpotIndices m)} (set (freeSpotIndices m))"
    by (subst bij_betw_cong) auto
  then show "bij_betw (\<lambda>r. nat (fst (getRandomSpotIndex m [r])))
        {..<length (freeSpotIndices m)}
        {i. i < length (spots m) \<and> state (spots m ! i) = FREE}"
    by (simp only: freeSpotIndices_set)
next
  assume "j < length (spots m) \<and> state (spots m ! j) = FREE"
  then show "card {r. r < k * length (freeSpotIndices m) \<and> fst (getRandomSpotIndex m (r # rs)) = int j}
           = k"
    by (simp add: getRandomSpotIndex_count)
qed

theorem getRandomSpotIndex_contract_witness:
  "(\<exists>i<length (spots (sampleFacility (SmallParking True) (Vector2 0 0) None
        [sampleSpot RESERVED 5, sampleSpot FREE 5, sampleSpot FREE 4])).
      state (spots (sampleFacility (SmallParking True) (Vector2 0 0) None
        [sampleSpot RESERVED 5, sampleSpot FREE 5, sampleSpot FREE 4]) ! i) = FREE)
   \<and> freeSpotIndices (sampleFacility (SmallParking True) (Vector2 0 0) None
        [sampleSpot RESERVED 5, sampleSpot FREE 5, sampleSpot FREE 4]) = [1, 2]
   \<and> getRandomSpotIndex (sampleFacility (SmallParking True) (Vector2 0 0) None
        [sampleSpot RESERVED 5, sampleSpot FREE 5, sampleSpot FREE 4]) [7, 9] = (2, [9])
   \<and> getRandomSpotIndex (sampleFacility (SmallParking True) (Vector2 0 0) None
        [sampleSpot RESERVED 5, sampleSpot FREE 5, sampleSpot FREE 4]) [2, 9] = (1, [9])
   \<and> state (spots (sampleFacility (SmallParking True) (Vector2 0 0) None
        [sampleSpot RESERVED 5, sampleSpot FREE 5, sampleSpot FREE 4]) !
          nat (fst (getRandomSpotIndex (sampleFacility (SmallParking True) (Vector2 0 0) None
            [sampleSpot RESERVED 5, sampleSpot FREE 5, sampleSpot FREE 4]) [7, 9]))) = FREE
   \<and> card {r. r < 3 * 2 \<and> fst (getRandomSpotIndex (sampleFacility (SmallParking True) (Vector2 0 0) None
        [sampleSpot RESERVED 5, sampleSpot FREE 5, sampleSpot FREE 4]) (r # [9])) = 2} = 3
   \<and> fst (getRandomSpotIndex (sampleFacility (SmallParking True) (Vector2 0 0) None
        [sampleSpot RESERVED 5, sampleSpot OCCUPIED 5]) [7]) = - 1"
proof -
  let ?m = "sampleFacility (SmallParking True) (Vector2 0 0) None
        [sampleSpot RESERVED 5, sampleSpot FREE 5, sampleSpot FREE 4]"
  let ?full = "sampleFacility (SmallParking True) (Vector2 0 0) None
        [sampleSpot RESERVED 5, sampleSpot OCCUPIED 5]"
  have ex: "\<exists>i<length (spots ?m). state (spots ?m ! i) = FREE"
    by (rule exI [of _ 1]) (simp add: sampleFacility_def sampleSpot_def)
  have fi: "freeSpotIndices ?m = [1, 2]"
    by (simp add: freeSpotIndices_def sampleFacility_def sampleSpot_def upt_rec)
  have two: "2 < length (spots ?m) \<and> state (spots ?m ! 2) = FREE"
    by (simp add: sampleFacility_def sampleSpot_def)
  have "freeSpotIndices ?full = []"
    by (simp add: freeSpotIndices_def sampleFacility_def sampleSpot_def upt_rec)
  with freeSpotIndices_empty_iff [of ?full]
  have none: "\<not> (\<exists>i<length (spots ?full). state (spots ?full ! i) = FREE)"
    by blast
  have l: "length (freeSpotIndices ?m) = 2" by (simp add: fi)
  have n7: "freeSpotIndices ?m ! (7 mod 2) = 2" and n2: "freeSpotIndices ?m ! (2 mod 2) = 1"
    by (simp_all add: fi)
  note inst = getRandomSpotIndex_contract [of ?m "[7, 9]" 7 "[9]" 2 3]
  from inst ex have free: "state (spots ?m ! nat (fst (getRandomSpotIndex ?m [7, 9]))) = FREE" by blast
  from inst ex have "getRandomSpotIndex ?m (7 # [9])
      = (int (freeSpotIndices ?m ! (7 mod length (freeSpotIndices ?m))), [9])" by blast
  then have r7: "getRandomSpotIndex ?m [7, 9] = (2, [9])" unfolding l n7 by simp
  from getRandomSpotIndex_contract [of ?m "[2, 9]" 2 "[9]"] ex
  have "getRandomSpotIndex ?m (2 # [9])
      = (int (freeSpotIndices ?m ! (2 mod length (freeSpotIndices ?m))), [9])" by blast
  then have r2: "getRandomSpotIndex ?m [2, 9] = (1, [9])" unfolding l n2 by simp
  from inst two
  have "card {r. r < 3 * length (freeSpotIndices ?m) \<and> fst (getRandomSpotIndex ?m (r # [9])) = int 2} = 3"
    by blast
  then have cnt: "card {r. r < 3 * 2 \<and> fst (getRandomSpotIndex ?m (r # [9])) = 2} = 3"
    unfolding l by simp
  from getRandomSpotIndex_contract [of ?full "[7]"] none
  have sent: "fst (getRandomSpotIndex ?full [7]) = - 1" by blast
  from ex fi r7 r2 free cnt sent show ?thesis by blast
qed

section \<open>Properties of the tick handler\<close>

text \<open>
  C7. When a parked vehicle with a parking context decides to exit during a tick, its spot
  is FREE in the store the exit planner reads, the exit side of a DISTANCE-priority vehicle
  is the negation of \<open>enteredFromLeft\<close> whatever the random source holds, the exit side of
  any other vehicle is the draw \<open>GetRandomValue(0, 1) == 1\<close>, the final x is two metres beyond
  the road bound of that side, and the vehicle ends in state EXITING with the planner's
  path.
\<close>

theorem exit_decision:
  assumes parked: "vehState car = PARKED"
    and decide: "parkedLogic cfg dt (promoteSpot mods car) car rng = (True, car1, rng1)"
    and fac: "parkedFacility car = Some fac" "fac < length mods"
    and idx: "0 \<le> parkedSpotIndex car" "nat (parkedSpotIndex car) < length (spots (mods ! fac))"
    and result: "tickCar cfg genExit dt bounds mods car rng = (mods', car', remove, rng')"
  shows "state (spots (mods' ! fac) ! nat (parkedSpotIndex car)) = FREE
       \<and> path car' = genExit car1 (mods' ! fac) (parkedSpot car)
                       (fst (chooseExitRight car1 rng1))
                       (if fst (chooseExitRight car1 rng1) then snd bounds + 2 else fst bounds - 2)
       \<and> (priority car = PRIORITY_DISTANCE \<longrightarrow>
            fst (chooseExitRight car1 rng1) = (\<not> enteredFromLeft car))
       \<and> (priority car \<noteq> PRIORITY_DISTANCE \<longrightarrow>
            fst (chooseExitRight car1 rng1) = (fst (GetRandomValue 0 1 rng1) = 1))
       \<and> vehState car' = EXITING"
proof -
  from parkedLogic_keeps [OF decide]
  have keep: "priority car1 = priority car" "enteredFromLeft car1 = enteredFromLeft car"
    "parkedFacility car1 = parkedFacility car" "parkedSpot car1 = parkedSpot car"
    "parkedSpotIndex car1 = parkedSpotIndex car" by simp_all
  let ?m1 = "promoteSpot mods car"
  have len: "length ?m1 = length mods" by simp
  have spots: "length (spots (?m1 ! fac)) = length (spots (mods ! fac))"
    using fac(2) by simp
  have vp: "validPtr ?m1 (parkedFacility car1) = Some fac"
    using fac len keep by (simp add: validPtr_def)
  have ne: "parkedSpotIndex car1 \<noteq> - 1" using idx keep by simp
  obtain er rng2 where ce: "chooseExitRight car1 rng1 = (er, rng2)" by (cases "chooseExitRight car1 rng1")
  let ?m2 = "setSpotStateAt ?m1 fac (parkedSpotIndex car) FREE"
  from result decide vp ne ce keep
  have res: "mods' = ?m2"
    "car' = car1\<lparr>path := genExit car1 (?m2 ! fac) (parkedSpot car) er
                     (if er then snd bounds + 2 else fst bounds - 2), vehState := EXITING\<rparr>"
    by (auto simp: tickCar_def leaveSpot_def Let_def)
  have freed: "state (spots (?m2 ! fac) ! nat (parkedSpotIndex car)) = FREE"
    using fac(2) idx len spots by (intro setSpotStateAt_state) simp_all
  show ?thesis
    using res freed ce keep chooseExitRight_distance [of car1 rng1] chooseExitRight_other [of car1 rng1]
    by simp
qed

theorem exit_decision_witness:
  "vehState ((sampleCar COMBUSTION PRIORITY_DISTANCE 15 PARKED)
       \<lparr>parkedFacility := Some 0, parkedSpotIndex := 0, readyToLeave := True\<rparr>) = PARKED
   \<and> state (spots (fst (tickCar sampleConfig
         (\<lambda>c m s r x. [mkWaypoint (Vector2 x 0) 1 (- 1) 0 True]) (1 / 60) (0, 120)
         [sampleFacility (SmallParking True) (Vector2 40 0) None [sampleSpot RESERVED 5]]
         ((sampleCar COMBUSTION PRIORITY_DISTANCE 15 PARKED)
            \<lparr>parkedFacility := Some 0, parkedSpotIndex := 0, readyToLeave := True\<rparr>) [1]) ! 0) ! 0)
       = FREE
   \<and> path (fst (snd (tickCar sampleConfig
         (\<lambda>c m s r x. [mkWaypoint (Vector2 x 0) 1 (- 1) 0 True]) (1 / 60) (0, 120)
         [sampleFacility (SmallParking True) (Vector2 40 0) None [sampleSpot RESERVED 5]]
         ((sampleCar COMBUSTION PRIORITY_DISTANCE 15 PARKED)
            \<lparr>parkedFacility := Some 0, parkedSpotIndex := 0, readyToLeave := True\<rparr>) [1])))
       = [mkWaypoint (Vector2 (- 2) 0) 1 (- 1) 0 True]
   \<and> vehState (fst (snd (tickCar sampleConfig
         (\<lambda>c m s r x. [mkWaypoint (Vector2 x 0) 1 (- 1) 0 True]) (1 / 60) (0, 120)
         [sampleFacility (SmallParking True) (Vector2 40 0) None [sampleSpot RESERVED 5]]
         ((sampleCar COMBUSTION PRIORITY_DISTANCE 15 PARKED)
            \<lparr>parkedFacility := Some 0, parkedSpotIndex := 0, readyToLeave := True\<rparr>) [1])))
       = EXITING"
proof -
  let ?car = "(sampleCar COMBUSTION PRIORITY_DISTANCE 15 PARKED)
       \<lparr>parkedFacility := Some 0, parkedSpotIndex := 0, readyToLeave := True\<rparr>"
  let ?mods = "[sampleFacility (SmallParking True) (Vector2 40 0) None [sampleSpot RESERVED 5]]"
  let ?gen = "\<lambda>(c::Vehicle) (m::Module) (s::Spot) (r::bool) x. [mkWaypoint (Vector2 x 0) 1 (- 1) 0 True]"
  let ?t = "tickCar sampleConfig ?gen (1 / 60) (0, 120) ?mods ?car [1]"
  have parked: "vehState ?car = PARKED" by (simp add: sampleCar_def)
  have decide: "parkedLogic sampleConfig (1 / 60) (promoteSpot ?mods ?car) ?car [1] = (True, ?car, [1])"
    by (simp add: parkedLogic_def sampleCar_def isChargingSpot_def)
  have fac: "parkedFacility ?car = Some 0" "(0::nat) < length ?mods" by simp_all
  have idx: "0 \<le> parkedSpotIndex ?car" "nat (parkedSpotIndex ?car) < length (spots (?mods ! 0))"
    by (simp_all add: sampleFacility_def)
  have res: "?t = (fst ?t, fst (snd ?t), fst (snd (snd ?t)), snd (snd (snd ?t)))" by simp
  have pr: "priority ?car = PRIORITY_DISTANCE" "enteredFromLeft ?car" "parkedSpotIndex ?car = 0"
    by (simp_all add: sampleCar_def)
  from exit_decision [OF parked decide fac idx res] pr parked
  show ?thesis by simp
qed

text \<open>
  C8. A PARKED electric vehicle at a charging facility has its battery raised by the charge
  rate times \<open>dt\<close>; it exits when the new level is above the force-exit threshold, never when
  the level is at most the exit threshold, and in between exactly when the draw falls below
  a probability that is linear in the level and, for a positive \<open>dt\<close> and thresholds in
  order, strictly increasing in it; what the dwell timer reports does not enter. Every
  other PARKED vehicle exits exactly when its dwell timer reports it is ready, whatever its
  battery level, and is left as it was.
\<close>

theorem parked_exit_split:
  assumes parked: "vehState car = PARKED"
  shows "(isChargingSpot mods car \<and> vehType car = ELECTRIC \<longrightarrow>
            batteryLevel (fst (snd (parkedLogic cfg dt mods car rng)))
              = batteryLevel car + CHARGING_RATE cfg * dt
            \<and> (batteryLevel car + CHARGING_RATE cfg * dt > BATTERY_FORCE_EXIT_THRESHOLD cfg \<longrightarrow>
                 fst (parkedLogic cfg dt mods car rng))
            \<and> (batteryLevel car + CHARGING_RATE cfg * dt \<le> BATTERY_FORCE_EXIT_THRESHOLD cfg
                 \<and> batteryLevel car + CHARGING_RATE cfg * dt > BATTERY_EXIT_THRESHOLD cfg \<longrightarrow>
                 fst (parkedLogic cfg dt mods car rng)
                   = (real_of_int (fst (GetRandomValue 0 10000 rng)) / 10000
                        < exitProbability cfg dt (batteryLevel car + CHARGING_RATE cfg * dt)))
            \<and> (batteryLevel car + CHARGING_RATE cfg * dt \<le> BATTERY_FORCE_EXIT_THRESHOLD cfg
                 \<and> batteryLevel car + CHARGING_RATE cfg * dt \<le> BATTERY_EXIT_THRESHOLD cfg \<longrightarrow>
                 \<not> fst (parkedLogic cfg dt mods car rng))
            \<and> fst (parkedLogic cfg dt mods (car\<lparr>readyToLeave := ready\<rparr>) rng)
                 = fst (parkedLogic cfg dt mods car rng))
       \<and> exitProbability cfg dt bat
            = dt / (2 * (BATTERY_FORCE_EXIT_THRESHOLD cfg - BATTERY_EXIT_THRESHOLD cfg))
              * (bat - BATTERY_EXIT_THRESHOLD cfg)
       \<and> (BATTERY_EXIT_THRESHOLD cfg < BATTERY_FORCE_EXIT_THRESHOLD cfg \<and> 0 < dt \<and> bat < bat' \<longrightarrow>
            exitProbability cfg dt bat < exitProbability cfg dt bat')
       \<and> (\<not> (isChargingSpot mods car \<and> vehType car = ELECTRIC) \<longrightarrow>
            parkedLogic cfg dt mods car rng = (readyToLeave car, car, rng)
            \<and> fst (parkedLogic cfg dt mods (car\<lparr>batteryLevel := level\<rparr>) rng) = readyToLeave car)"
proof (intro conjI impI)
  show "exitProbability cfg dt bat
            = dt / (2 * (BATTERY_FORCE_EXIT_THRESHOLD cfg - BATTERY_EXIT_THRESHOLD cfg))
              * (bat - BATTERY_EXIT_THRESHOLD cfg)"
    by (simp add: exitProbability_def Let_def)
next
  assume h: "BATTERY_EXIT_THRESHOLD cfg < BATTERY_FORCE_EXIT_THRESHOLD cfg \<and> 0 < dt \<and> bat < bat'"
  then have r: "0 < BATTERY_FORCE_EXIT_THRESHOLD cfg - BATTERY_EXIT_THRESHOLD cfg" by simp
  from h have "bat - BATTERY_EXIT_THRESHOLD cfg < bat' - BATTERY_EXIT_THRESHOLD cfg" by simp
  with r have "(bat - BATTERY_EXIT_THRESHOLD cfg) / (BATTERY_FORCE_EXIT_THRESHOLD cfg - BATTERY_EXIT_THRESHOLD cfg)
      < (bat' - BATTERY_EXIT_THRESHOLD cfg) / (BATTERY_FORCE_EXIT_THRESHOLD cfg - BATTERY_EXIT_THRESHOLD cfg)"
    by (simp add: divide_strict_right_mono)
  then have q: "(bat - BATTERY_EXIT_THRESHOLD cfg) / (BATTERY_FORCE_EXIT_THRESHOLD cfg - BATTERY_EXIT_THRESHOLD cfg)
      < (bat' - BATTERY_EXIT_THRESHOLD cfg) / (BATTERY_FORCE_EXIT_THRESHOLD cfg - BATTERY_EXIT_THRESHOLD cfg)" .
  have half: "(0::real) < 0.5" by simp
  from h have dt: "0 < dt" by simp
  from mult_strict_right_mono [OF mult_strict_left_mono [OF q half] dt]
  have "0.5 * ((bat - BATTERY_EXIT_THRESHOLD cfg) / (BATTERY_FORCE_EXIT_THRESHOLD cfg - BATTERY_EXIT_THRESHOLD cfg)) * dt
      < 0.5 * ((bat' - BATTERY_EXIT_THRESHOLD cfg) / (BATTERY_FORCE_EXIT_THRESHOLD cfg - BATTERY_EXIT_THRESHOLD cfg)) * dt" .
  then show "exitProbability cfg dt bat < exitProbability cfg dt bat'"
    by (simp only: exitProbability_def Let_def)
qed (use parked in \<open>auto simp: parkedLogic_def charge_def Let_def isChargingSpot_def split: prod.splits\<close>)

theorem parked_exit_split_witness:
  "vehState ((sampleCar ELECTRIC PRIORITY_PRICE 15 PARKED)
       \<lparr>batteryLevel := 96, parkedFacility := Some 0, parkedSpotIndex := 0\<rparr>) = PARKED
   \<and> isChargingSpot [sampleFacility (SmallChargingStation True) (Vector2 40 0) None [sampleSpot OCCUPIED 5]]
        ((sampleCar ELECTRIC PRIORITY_PRICE 15 PARKED)
           \<lparr>batteryLevel := 96, parkedFacility := Some 0, parkedSpotIndex := 0\<rparr>)
   \<and> fst (parkedLogic sampleConfig (1 / 60)
        [sampleFacility (SmallChargingStation True) (Vector2 40 0) None [sampleSpot OCCUPIED 5]]
        ((sampleCar ELECTRIC PRIORITY_PRICE 15 PARKED)
           \<lparr>batteryLevel := 96, parkedFacility := Some 0, parkedSpotIndex := 0\<rparr>) [])
   \<and> batteryLevel (fst (snd (parkedLogic sampleConfig (1 / 60)
        [sampleFacility (SmallChargingStation True) (Vector2 40 0) None [sampleSpot OCCUPIED 5]]
        ((sampleCar ELECTRIC PRIORITY_PRICE 15 PARKED)
           \<lparr>batteryLevel := 96, parkedFacility := Some 0, parkedSpotIndex := 0\<rparr>) []))) = 96 + 5 * (1 / 60)
   \<and> exitProbability sampleConfig (1 / 60) 85 < exitProbability sampleConfig (1 / 60) 90
   \<and> exitProbability sampleConfig (1 / 60) 85 = 1 / 360
   \<and> vehState ((sampleCar COMBUSTION PRIORITY_PRICE 15 PARKED)
       \<lparr>parkedFacility := Some 0, parkedSpotIndex := 0, readyToLeave := True\<rparr>) = PARKED
   \<and> fst (parkedLogic sampleConfig (1 / 60)
        [sampleFacility (SmallChargingStation True) (Vector2 40 0) None [sampleSpot OCCUPIED 5]]
        ((sampleCar COMBUSTION PRIORITY_PRICE 15 PARKED)
           \<lparr>parkedFacility := Some 0, parkedSpotIndex := 0, readyToLeave := True\<rparr>) [])"
proof -
  let ?mods = "[sampleFacility (SmallChargingStation True) (Vector2 40 0) None [sampleSpot OCCUPIED 5]]"
  let ?e = "(sampleCar ELECTRIC PRIORITY_PRICE 15 PARKED)
       \<lparr>batteryLevel := 96, parkedFacility := Some 0, parkedSpotIndex := 0\<rparr>"
  let ?c = "(sampleCar COMBUSTION PRIORITY_PRICE 15 PARKED)
       \<lparr>parkedFacility := Some 0, parkedSpotIndex := 0, readyToLeave := True\<rparr>"
  have pe: "vehState ?e = PARKED" and pc: "vehState ?c = PARKED" by (simp_all add: sampleCar_def)
  have ch: "isChargingSpot ?mods ?e" by (simp add: isChargingSpot_def deref_def sampleFacility_def)
  have el: "vehType ?e = ELECTRIC" "batteryLevel ?e = 96" by (simp_all add: sampleCar_def)
  have co: "vehType ?c \<noteq> ELECTRIC" "readyToLeave ?c" by (simp_all add: sampleCar_def)
  have cf: "BATTERY_EXIT_THRESHOLD sampleConfig = 80" "BATTERY_FORCE_EXIT_THRESHOLD sampleConfig = 95"
    "CHARGING_RATE sampleConfig = 5" by (simp_all add: sampleConfig_def)
  note e = parked_exit_split [OF pe, where mods = ?mods and cfg = sampleConfig and dt = "1 / 60"
      and rng = "[]" and bat = 85 and bat' = 90]
  note c = parked_exit_split [OF pc, where mods = ?mods and cfg = sampleConfig and dt = "1 / 60"
      and rng = "[]"]
  from e ch el cf have e1: "fst (parkedLogic sampleConfig (1 / 60) ?mods ?e [])" by simp
  from e ch el cf have e2: "batteryLevel (fst (snd (parkedLogic sampleConfig (1 / 60) ?mods ?e [])))
      = 96 + 5 * (1 / 60)" by simp
  from e cf have e3: "exitProbability sampleConfig (1 / 60) 85 < exitProbability sampleConfig (1 / 60) 90"
    by simp
  from e cf have e4: "exitProbability sampleConfig (1 / 60) 85 = 1 / 360" by simp
  from c co have c1: "fst (parkedLogic sampleConfig (1 / 60) ?mods ?c [])" by simp
  from pe ch e1 e2 e3 e4 pc c1 show ?thesis by blast
qed


section \<open>Properties of the vehicle-spawned handler\<close>

text \<open>
  C6. When the handler reaches the spot selection (the list of eligible facilities is not
  empty) and no eligible facility has a FREE spot, it reserves nothing (the store is
  unchanged and the vehicle gets no parking context), it publishes and assigns a path of
  one waypoint with \<open>stopAtEnd = true\<close> at the vehicle's own \<open>y\<close>, whose \<open>x\<close> is beyond the right
  edge of every \<open>NormalRoad\<close> when \<open>velocity.x > 0\<close> and before the left edge of every
  \<open>NormalRoad\<close> otherwise, and it sets the vehicle's state to EXITING.
\<close>

theorem through_traffic:
  assumes dec: "decideSeekCharging cfg car rng = (seekCharging, rng1)"
    and ne: "eligibleFacilities mods (vehType car) seekCharging \<noteq> []"
    and full: "\<forall>f\<in>set (eligibleFacilities mods (vehType car) seekCharging).
                 \<not> (\<exists>i<length (spots (mods ! f)). state (spots (mods ! f) ! i) = FREE)"
    and result: "onCarSpawned cfg mods car rng = (mods', car', outcome, rng')"
  shows "mods' = mods
       \<and> (\<exists>wp. outcome = ThroughTraffic [wp] \<and> path car' = [wp] \<and> stopAtEnd wp
            \<and> vec_y (position wp) = vec_y (vehPosition car)
            \<and> (vec_x (vehVelocity car) > 0 \<longrightarrow>
                 (\<forall>m\<in>set mods. kind m = NormalRoad \<longrightarrow>
                    vec_x (worldPosition m) + width m < vec_x (position wp)))
            \<and> (\<not> vec_x (vehVelocity car) > 0 \<longrightarrow>
                 (\<forall>m\<in>set mods. kind m = NormalRoad \<longrightarrow>
                    vec_x (position wp) < vec_x (worldPosition m))))
       \<and> vehState car' = EXITING
       \<and> parkedFacility car' = parkedFacility car \<and> parkedSpotIndex car' = parkedSpotIndex car"
proof -
  let ?facs = "eligibleFacilities mods (vehType car) seekCharging"
  from full have full': "\<forall>f\<in>set ?facs. freeSpotIndices (mods ! f) = []"
    by (simp add: freeSpotIndices_empty_iff)
  obtain tf si rng2 where ds: "determineSpot mods car ?facs rng1 = (tf, si, rng2)"
    by (cases "determineSpot mods car ?facs rng1")
  from determineSpot_full [OF ne full', of car rng1] ds have si: "si = - 1" by simp
  obtain mn mx where rb: "roadBounds mods = (mn, mx)" by (cases "roadBounds mods")
  define finalX where "finalX = (if vec_x (vehVelocity car) > 0 then mx + 2 else mn - 2)"
  define wp where "wp = mkWaypoint (Vector2 finalX (vec_y (vehPosition car))) 1 (- 1) 0 True"
  have tt: "throughTraffic mods car = (car\<lparr>path := [wp], vehState := EXITING\<rparr>, [wp])"
    unfolding wp_def finalX_def by (rule throughTraffic_eq [OF rb])
  from onCarSpawned_through [OF dec ne ds [unfolded si]] result tt
  have res: "mods' = mods" "outcome = ThroughTraffic [wp]"
    "car' = car\<lparr>path := [wp], vehState := EXITING\<rparr>"
    by simp_all
  have beyond: "\<And>m. m \<in> set mods \<Longrightarrow> kind m = NormalRoad \<Longrightarrow>
      mn - 2 < vec_x (worldPosition m) \<and> vec_x (worldPosition m) + width m < mx + 2"
    using roadBounds_beyond [of _ mods] rb by simp
  have wpx: "vec_x (position wp) = finalX" "vec_y (position wp) = vec_y (vehPosition car)"
    "stopAtEnd wp" by (simp_all add: wp_def mkWaypoint_def)
  have right: "vec_x (vehVelocity car) > 0 \<longrightarrow>
      (\<forall>m\<in>set mods. kind m = NormalRoad \<longrightarrow> vec_x (worldPosition m) + width m < vec_x (position wp))"
    using beyond by (simp add: wpx finalX_def)
  have left: "\<not> vec_x (vehVelocity car) > 0 \<longrightarrow>
      (\<forall>m\<in>set mods. kind m = NormalRoad \<longrightarrow> vec_x (position wp) < vec_x (worldPosition m))"
    using beyond by (simp add: wpx finalX_def)
  have pc: "path car' = [wp]" "vehState car' = EXITING" "parkedFacility car' = parkedFacility car"
    "parkedSpotIndex car' = parkedSpotIndex car" by (simp_all add: res)
  from res(2) pc(1) wpx(3) wpx(2) right left
  have "\<exists>wp. outcome = ThroughTraffic [wp] \<and> path car' = [wp] \<and> stopAtEnd wp
            \<and> vec_y (position wp) = vec_y (vehPosition car)
            \<and> (vec_x (vehVelocity car) > 0 \<longrightarrow>
                 (\<forall>m\<in>set mods. kind m = NormalRoad \<longrightarrow>
                    vec_x (worldPosition m) + width m < vec_x (position wp)))
            \<and> (\<not> vec_x (vehVelocity car) > 0 \<longrightarrow>
                 (\<forall>m\<in>set mods. kind m = NormalRoad \<longrightarrow>
                    vec_x (position wp) < vec_x (worldPosition m)))"
    by blast
  with res(1) pc show ?thesis by blast
qed

text \<open>
  C5. With a non-empty list of eligible facilities, a DISTANCE-priority vehicle is assigned
  a facility with a FREE spot whose distance from the vehicle's position is the smallest
  among the eligible facilities with a FREE spot, and a PRICE-priority vehicle is assigned
  the facility whose sampled FREE spot has the lowest price among the spots the loop
  sampled, one in each eligible facility with a FREE spot. (The metric starts at
  \<open>FLT_MAX\<close>, so some candidate has to lie below it.) In the scenario of two one-spot
  facilities, at distance 10 with price 5 and at distance 50 with price 2, the
  DISTANCE-priority vehicle gets the first and the PRICE-priority vehicle the second.
\<close>

theorem priority_selection:
  assumes dec: "decideSeekCharging cfg car rng = (seekCharging, rng1)"
    and facs: "facs = eligibleFacilities mods (vehType car) seekCharging"
    and result: "onCarSpawned cfg mods car rng = (mods', car', outcome, rng')"
  shows "(priority car = PRIORITY_DISTANCE
          \<and> (\<exists>g\<in>set facs. (\<exists>i<length (spots (mods ! g)). state (spots (mods ! g) ! i) = FREE)
                \<and> Vector2Distance (vehPosition car) (worldPosition (mods ! g)) < FLT_MAX) \<longrightarrow>
          (\<exists>f\<in>set facs. parkedFacility car' = Some f
               \<and> isFreeSpot (mods ! f) (parkedSpotIndex car')
               \<and> (\<forall>g\<in>set facs. (\<exists>i<length (spots (mods ! g)). state (spots (mods ! g) ! i) = FREE) \<longrightarrow>
                      Vector2Distance (vehPosition car) (worldPosition (mods ! f))
                        \<le> Vector2Distance (vehPosition car) (worldPosition (mods ! g)))))
       \<and> (priority car = PRIORITY_PRICE
          \<and> (\<exists>s\<in>set (priceSamples mods facs rng1). snd (snd s) < FLT_MAX) \<longrightarrow>
          (\<exists>f\<in>set facs. parkedFacility car' = Some f
               \<and> (f, parkedSpotIndex car', price (parkedSpot car')) \<in> set (priceSamples mods facs rng1)
               \<and> (\<forall>s\<in>set (priceSamples mods facs rng1). price (parkedSpot car') \<le> snd (snd s))))
       \<and> (\<forall>g\<in>set facs. (\<exists>i<length (spots (mods ! g)). state (spots (mods ! g) ! i) = FREE) \<longrightarrow>
             (\<exists>j p. (g, j, p) \<in> set (priceSamples mods facs rng1)))
       \<and> (\<forall>s\<in>set (priceSamples mods facs rng1).
             fst s \<in> set facs \<and> isFreeSpot (mods ! fst s) (fst (snd s))
             \<and> snd (snd s) = price (spots (mods ! fst s) ! nat (fst (snd s))))"
proof (intro conjI impI)
  assume h: "priority car = PRIORITY_DISTANCE
          \<and> (\<exists>g\<in>set facs. (\<exists>i<length (spots (mods ! g)). state (spots (mods ! g) ! i) = FREE)
                \<and> Vector2Distance (vehPosition car) (worldPosition (mods ! g)) < FLT_MAX)"
  then obtain g where g: "g \<in> set facs" "freeSpotIndices (mods ! g) \<noteq> []"
      "Vector2Distance (vehPosition car) (worldPosition (mods ! g)) < FLT_MAX"
    by (auto simp: freeSpotIndices_empty_iff)
  obtain tf bi bm r where sel: "selectByPriority mods car facs rng1 = (tf, bi, bm, r)"
    by (cases "selectByPriority mods car facs rng1") auto
  with h have loop: "foldl (distanceStep mods (vehPosition car)) (None, - 1, FLT_MAX, rng1) facs = (tf, bi, bm, r)"
    by (simp add: selectByPriority_def)
  from distanceLoop_inv [OF loop]
  have m: "\<forall>g\<in>set facs. freeSpotIndices (mods ! g) \<noteq> [] \<longrightarrow>
             bm \<le> Vector2Distance (vehPosition car) (worldPosition (mods ! g))"
    and c: "(tf, bi, bm) = (None, - 1, FLT_MAX)
          \<or> (\<exists>f\<in>set facs. tf = Some f \<and> freeSpotIndices (mods ! f) \<noteq> []
                \<and> bm = Vector2Distance (vehPosition car) (worldPosition (mods ! f)) \<and> bm < FLT_MAX
                \<and> 0 \<le> bi \<and> nat bi < length (spots (mods ! f))
                \<and> state (spots (mods ! f) ! nat bi) = FREE)"
    by blast+
  from m g have "bm < FLT_MAX" by fastforce
  with c obtain f where f: "f \<in> set facs" "tf = Some f"
      "bm = Vector2Distance (vehPosition car) (worldPosition (mods ! f))"
      "isFreeSpot (mods ! f) bi"
    by (auto simp: isFreeSpot_def)
  from f(4) have "bi \<noteq> - 1" by (simp add: isFreeSpot_def)
  with sel f(2) have ds: "determineSpot mods car (eligibleFacilities mods (vehType car) seekCharging) rng1
      = (Some f, bi, r)" by (simp add: determineSpot_selected facs)
  from g(1) have ne: "eligibleFacilities mods (vehType car) seekCharging \<noteq> []" by (auto simp: facs)
  from f(1) have fl: "f < length mods" unfolding facs by (rule eligibleFacilities_valid)
  from onCarSpawned_reserved [OF dec ne ds fl f(4)] result
  have car': "parkedFacility car' = Some f" "parkedSpotIndex car' = bi" by auto
  have "\<forall>g\<in>set facs. (\<exists>i<length (spots (mods ! g)). state (spots (mods ! g) ! i) = FREE) \<longrightarrow>
                      Vector2Distance (vehPosition car) (worldPosition (mods ! f))
                        \<le> Vector2Distance (vehPosition car) (worldPosition (mods ! g))"
    using m f(3) by (simp add: freeSpotIndices_empty_iff)
  with f(1) f(4) car'
  show "\<exists>f\<in>set facs. parkedFacility car' = Some f
               \<and> isFreeSpot (mods ! f) (parkedSpotIndex car')
               \<and> (\<forall>g\<in>set facs. (\<exists>i<length (spots (mods ! g)). state (spots (mods ! g) ! i) = FREE) \<longrightarrow>
                      Vector2Distance (vehPosition car) (worldPosition (mods ! f))
                        \<le> Vector2Distance (vehPosition car) (worldPosition (mods ! g)))"
    by (intro bexI [of _ f]) simp_all
next
  assume h: "priority car = PRIORITY_PRICE
          \<and> (\<exists>s\<in>set (priceSamples mods facs rng1). snd (snd s) < FLT_MAX)"
  then obtain s where s: "s \<in> set (priceSamples mods facs rng1)" "snd (snd s) < FLT_MAX" by blast
  obtain tf bi bm r where sel: "selectByPriority mods car facs rng1 = (tf, bi, bm, r)"
    by (cases "selectByPriority mods car facs rng1") auto
  with h have loop: "foldl (priceStep mods) (None, - 1, FLT_MAX, rng1) facs = (tf, bi, bm, r)"
    by (simp add: selectByPriority_def)
  from priceLoop_inv [OF loop]
  have m: "\<forall>s\<in>set (priceSamples mods facs rng1). bm \<le> snd (snd s)"
    and c: "(tf, bi, bm) = (None, - 1, FLT_MAX)
          \<or> (\<exists>f. tf = Some f \<and> (f, bi, bm) \<in> set (priceSamples mods facs rng1) \<and> bm < FLT_MAX)"
    by blast+
  from m s have "bm < FLT_MAX" by fastforce
  with c obtain f where f: "tf = Some f" "(f, bi, bm) \<in> set (priceSamples mods facs rng1)" by auto
  from priceSamples_sound [OF f(2)]
  have snd: "f \<in> set facs" "isFreeSpot (mods ! f) bi" "bm = price (spots (mods ! f) ! nat bi)"
    by (simp_all add: isFreeSpot_def)
  from snd(2) have "bi \<noteq> - 1" by (simp add: isFreeSpot_def)
  with sel f(1) have ds: "determineSpot mods car (eligibleFacilities mods (vehType car) seekCharging) rng1
      = (Some f, bi, r)" by (simp add: determineSpot_selected facs)
  from snd(1) have ne: "eligibleFacilities mods (vehType car) seekCharging \<noteq> []" by (auto simp: facs)
  from snd(1) have fl: "f < length mods" unfolding facs by (rule eligibleFacilities_valid)
  from onCarSpawned_reserved [OF dec ne ds fl snd(2)] result
  have car': "parkedFacility car' = Some f" "parkedSpotIndex car' = bi"
    "price (parkedSpot car') = bm" by (auto simp: snd(3))
  with snd(1) f(2) m
  show "\<exists>f\<in>set facs. parkedFacility car' = Some f
               \<and> (f, parkedSpotIndex car', price (parkedSpot car')) \<in> set (priceSamples mods facs rng1)
               \<and> (\<forall>s\<in>set (priceSamples mods facs rng1). price (parkedSpot car') \<le> snd (snd s))"
    by (intro bexI [of _ f]) simp_all
next
  show "\<forall>g\<in>set facs. (\<exists>i<length (spots (mods ! g)). state (spots (mods ! g) ! i) = FREE) \<longrightarrow>
             (\<exists>j p. (g, j, p) \<in> set (priceSamples mods facs rng1))"
    using priceSamples_complete [of _ facs mods rng1] by (simp add: freeSpotIndices_empty_iff)
next
  show "\<forall>s\<in>set (priceSamples mods facs rng1).
             fst s \<in> set facs \<and> isFreeSpot (mods ! fst s) (fst (snd s))
             \<and> snd (snd s) = price (spots (mods ! fst s) ! nat (fst (snd s)))"
  proof
    fix s assume "s \<in> set (priceSamples mods facs rng1)"
    then have "(fst s, fst (snd s), snd (snd s)) \<in> set (priceSamples mods facs rng1)" by simp
    from priceSamples_sound [OF this] show "fst s \<in> set facs \<and> isFreeSpot (mods ! fst s) (fst (snd s))
             \<and> snd (snd s) = price (spots (mods ! fst s) ! nat (fst (snd s)))"
      by (simp add: isFreeSpot_def)
  qed
qed

theorem priority_selection_witness:
  "Vector2Distance (vehPosition (sampleCar COMBUSTION PRIORITY_DISTANCE 15 DRIVING))
       (worldPosition (scenarioMap FREE ! 1)) = 10
   \<and> Vector2Distance (vehPosition (sampleCar COMBUSTION PRIORITY_DISTANCE 15 DRIVING))
       (worldPosition (scenarioMap FREE ! 2)) = 50
   \<and> priceSamples (scenarioMap FREE) [1, 2] [] = [(1, 0, 5), (2, 0, 2)]
   \<and> parkedFacility (fst (snd (onCarSpawned sampleConfig (scenarioMap FREE)
         (sampleCar COMBUSTION PRIORITY_DISTANCE 15 DRIVING) []))) = Some 1
   \<and> parkedFacility (fst (snd (onCarSpawned sampleConfig (scenarioMap FREE)
         (sampleCar COMBUSTION PRIORITY_PRICE 15 DRIVING) []))) = Some 2"
proof -
  let ?m = "scenarioMap FREE"
  let ?d = "sampleCar COMBUSTION PRIORITY_DISTANCE 15 DRIVING"
  let ?p = "sampleCar COMBUSTION PRIORITY_PRICE 15 DRIVING"
  let ?rd = "onCarSpawned sampleConfig ?m ?d []"
  let ?rp = "onCarSpawned sampleConfig ?m ?p []"
  have ty: "vehType ?d = COMBUSTION" "vehType ?p = COMBUSTION" "priority ?d = PRIORITY_DISTANCE"
    "priority ?p = PRIORITY_PRICE" by (simp_all add: sampleCar_def)
  have facs: "[1, 2] = eligibleFacilities ?m (vehType ?d) False"
    "[1, 2] = eligibleFacilities ?m (vehType ?p) False"
    by (simp_all only: ty scenario_eligible)
  have rd: "?rd = (fst ?rd, fst (snd ?rd), fst (snd (snd ?rd)), snd (snd (snd ?rd)))" by simp
  have rp: "?rp = (fst ?rp, fst (snd ?rp), fst (snd (snd ?rp)), snd (snd (snd ?rp)))" by simp
  have small: "(10::real) < FLT_MAX" "(2::real) < FLT_MAX" by (simp_all add: FLT_MAX_def)
  note d = scenario_distances [of PRIORITY_DISTANCE FREE]
  \<comment> \<open>the DISTANCE-priority vehicle\<close>
  have premD: "priority ?d = PRIORITY_DISTANCE
      \<and> (\<exists>g\<in>set [1, 2]. (\<exists>i<length (spots (?m ! g)). state (spots (?m ! g) ! i) = FREE)
            \<and> Vector2Distance (vehPosition ?d) (worldPosition (?m ! g)) < FLT_MAX)"
    using ty(3) scenario_free(1) d(1) small(1) by (intro conjI bexI [of _ 1]) simp_all
  from priority_selection [OF scenario_decide facs(1) rd] premD
  obtain f where f: "f \<in> set [1, 2]" "parkedFacility (fst (snd ?rd)) = Some f"
    "\<forall>g\<in>set [1, 2]. (\<exists>i<length (spots (?m ! g)). state (spots (?m ! g) ! i) = FREE) \<longrightarrow>
        Vector2Distance (vehPosition ?d) (worldPosition (?m ! f))
          \<le> Vector2Distance (vehPosition ?d) (worldPosition (?m ! g))"
    by blast
  from f(3) scenario_free(1) d(1)
  have "Vector2Distance (vehPosition ?d) (worldPosition (?m ! f)) \<le> 10" by fastforce
  with d(2) have "f \<noteq> 2" by auto
  with f(1) have "f = 1" by simp
  with f(2) have D: "parkedFacility (fst (snd ?rd)) = Some 1" by simp
  \<comment> \<open>the PRICE-priority vehicle\<close>
  have premP: "priority ?p = PRIORITY_PRICE
      \<and> (\<exists>s\<in>set (priceSamples ?m [1, 2] []). snd (snd s) < FLT_MAX)"
    unfolding scenario_samples using ty(4) small(2) by simp
  from priority_selection [OF scenario_decide facs(2) rp] premP
  obtain g where g: "parkedFacility (fst (snd ?rp)) = Some g"
    "(g, parkedSpotIndex (fst (snd ?rp)), price (parkedSpot (fst (snd ?rp)))) \<in> set (priceSamples ?m [1, 2] [])"
    "\<forall>s\<in>set (priceSamples ?m [1, 2] []). price (parkedSpot (fst (snd ?rp))) \<le> snd (snd s)"
    by blast
  from g(3) have "price (parkedSpot (fst (snd ?rp))) \<le> 2" unfolding scenario_samples by simp
  with g(2) have "g = 2" unfolding scenario_samples by auto
  with g(1) have P: "parkedFacility (fst (snd ?rp)) = Some 2" by simp
  from d scenario_samples D P show ?thesis by simp
qed

theorem through_traffic_witness:
  "eligibleFacilities (scenarioMap OCCUPIED) COMBUSTION False = [1, 2]
   \<and> fst (onCarSpawned sampleConfig (scenarioMap OCCUPIED)
         (sampleCar COMBUSTION PRIORITY_DISTANCE 15 DRIVING) [3, 4]) = scenarioMap OCCUPIED
   \<and> vehState (fst (snd (onCarSpawned sampleConfig (scenarioMap OCCUPIED)
         (sampleCar COMBUSTION PRIORITY_DISTANCE 15 DRIVING) [3, 4]))) = EXITING
   \<and> length (path (fst (snd (onCarSpawned sampleConfig (scenarioMap OCCUPIED)
         (sampleCar COMBUSTION PRIORITY_DISTANCE 15 DRIVING) [3, 4])))) = 1
   \<and> 120 < vec_x (position (hd (path (fst (snd (onCarSpawned sampleConfig (scenarioMap OCCUPIED)
         (sampleCar COMBUSTION PRIORITY_DISTANCE 15 DRIVING) [3, 4]))))))"
proof -
  let ?m = "scenarioMap OCCUPIED"
  let ?c = "sampleCar COMBUSTION PRIORITY_DISTANCE 15 DRIVING"
  let ?r = "onCarSpawned sampleConfig ?m ?c [3, 4]"
  have ty: "vehType ?c = COMBUSTION" "vec_x (vehVelocity ?c) > 0" by (simp_all add: sampleCar_def)
  have dec: "decideSeekCharging sampleConfig ?c [3, 4] = (False, [3, 4])"
    by (simp add: decideSeekCharging_def sampleCar_def)
  have ne: "eligibleFacilities ?m (vehType ?c) False \<noteq> []" by (simp add: ty scenario_eligible)
  have full: "\<forall>f\<in>set (eligibleFacilities ?m (vehType ?c) False).
      \<not> (\<exists>i<length (spots (?m ! f)). state (spots (?m ! f) ! i) = FREE)"
    unfolding ty scenario_eligible
    by (simp add: scenarioMap_def sampleFacility_def sampleSpot_def)
  have res: "?r = (fst ?r, fst (snd ?r), fst (snd (snd ?r)), snd (snd (snd ?r)))" by simp
  have road: "sampleRoad NormalRoad 80 \<in> set ?m" "kind (sampleRoad NormalRoad 80) = NormalRoad"
    "vec_x (worldPosition (sampleRoad NormalRoad 80)) + width (sampleRoad NormalRoad 80) = 120"
    by (simp_all add: scenarioMap_def sampleRoad_def)
  from through_traffic [OF dec ne full res]
  obtain wp where wp: "fst ?r = ?m" "path (fst (snd ?r)) = [wp]" "vehState (fst (snd ?r)) = EXITING"
    "vec_x (vehVelocity ?c) > 0 \<longrightarrow>
       (\<forall>m\<in>set ?m. kind m = NormalRoad \<longrightarrow> vec_x (worldPosition m) + width m < vec_x (position wp))"
    by blast
  from wp(4) ty(2) road have "120 < vec_x (position wp)" by fastforce
  with wp(1-3) scenario_eligible [of OCCUPIED] show ?thesis by simp
qed

section \<open>Properties of the vehicle's own update\<close>




section \<open>The spot cycle\<close>





end
